theory Spec2Isabelle
  imports Main
begin

section \<open>JavaScript values as the source reads them\<close>

text \<open>
  An optional field of a JSON object is an \<open>option\<close>: \<open>None\<close> is \<open>undefined\<close>.
  The source tests fields by truthiness (\<open>!x\<close>, \<open>x && ...\<close>, \<open>x || d\<close>): a missing field
  is falsy, and so are the empty string and the number zero.
\<close>

definition truthy_str :: "string option \<Rightarrow> bool" where
  "truthy_str v = (case v of None \<Rightarrow> False | Some s \<Rightarrow> s \<noteq> [])"

text \<open>\<open>a || b\<close> on optional strings.\<close>

definition or_str :: "string option \<Rightarrow> string option \<Rightarrow> string option" where
  "or_str a b = (if truthy_str a then a else b)"

text \<open>\<open>a || 'd'\<close>, with a string literal as the default.\<close>

definition or_default :: "string option \<Rightarrow> string \<Rightarrow> string" where
  "or_default a d = (case a of None \<Rightarrow> d | Some s \<Rightarrow> if s = [] then d else s)"

text \<open>Every \<open>throw\<close> of the source is a value of this type.\<close>

datatype error =
    ReadFailed
  | JsonParseFailed
  | TypeError
  | InvalidCredentialsFormat
  | LoadCredentialsFailed
  | SaveTokensFailed
  | RefreshFailed
  | TokenExchangeFailed
  | ListenFailed
  | NoPortAvailable
  | NoValidToken
  | ProviderError

section \<open>AuthServer: the object and its environment\<close>

text \<open>The fields of \<open>AuthServer\<close> that its methods mutate (\<open>src/AuthServer.js\<close>, constructor).
  \<open>server\<close> holds the port of the bound listener, sockets are numbered.\<close>

record auth_server =
  server :: "nat option"
  authCompletedSuccessfully :: bool
  activeConnections :: "nat set"

definition new_AuthServer :: auth_server where
  "new_AuthServer = \<lparr>server = None, authCompletedSuccessfully = False, activeConnections = {}\<rparr>"

text \<open>What \<open>testServer.listen(port)\<close> does on a port: the listen callback runs, or the
  \<open>error\<close> event fires with code \<open>EADDRINUSE\<close>, or with another code.\<close>

datatype listen_result = Listens | EADDRINUSE | OtherListenError

subsection \<open>findAvailablePort\<close>

text \<open>
  \<open>for (let port = startPort; port <= endPort; port++)\<close>: the first port that listens is
  stored in \<open>this.server\<close> and returned; \<open>EADDRINUSE\<close> moves on to the next port; any other
  error is rethrown; after the loop the function throws.
\<close>

function findAvailablePort_from ::
  "(nat \<Rightarrow> listen_result) \<Rightarrow> nat \<Rightarrow> nat \<Rightarrow> auth_server \<Rightarrow> (error + nat) \<times> auth_server" where
  "findAvailablePort_from listen port endPort s =
     (if port \<le> endPort then
        (case listen port of
           Listens \<Rightarrow> (Inr port, s\<lparr>server := Some port\<rparr>)
         | EADDRINUSE \<Rightarrow> findAvailablePort_from listen (Suc port) endPort s
         | OtherListenError \<Rightarrow> (Inl ListenFailed, s))
      else (Inl NoPortAvailable, s))"
  by pat_completeness auto
termination
  by (relation "measure (\<lambda>(listen, port, endPort, s). Suc endPort - port)") auto

declare findAvailablePort_from.simps [simp del]

text \<open>The default arguments \<open>startPort = 3000, endPort = 3010\<close>.\<close>

definition startPort_default :: nat where "startPort_default = 3000"
definition endPort_default :: nat where "endPort_default = 3010"

definition findAvailablePort :: "(nat \<Rightarrow> listen_result) \<Rightarrow> auth_server \<Rightarrow> (error + nat) \<times> auth_server" where
  "findAvailablePort listen s = findAvailablePort_from listen startPort_default endPort_default s"

subsection \<open>Files, credentials, token bundles\<close>

text \<open>A JSON file on disk: missing, not parseable, or holding an object.\<close>

datatype 'a json_file = NoSuchFile | NotJson | Json 'a

text \<open>The token bundle of \<open>token.json\<close>; \<open>expiry_date\<close> is in epoch milliseconds.\<close>

record tokens =
  access_token :: "string option"
  refresh_token :: "string option"
  expiry_date :: "int option"
  scope :: "string option"
  token_type :: "string option"

record client_config =
  client_id :: "string option"
  client_secret :: "string option"
  redirect_uris :: "string list option"

record credentials_json =
  web :: "client_config option"
  installed :: "client_config option"

text \<open>
  What the methods read from outside and cannot change: the credentials file, the clock
  (\<open>Date.now()\<close>), the answers of the provider's token endpoint to a refresh token and to
  an authorization code, whether \<open>mkdir\<close> and \<open>writeFile\<close> on the token path succeed, and
  what \<open>listen\<close> does on each port. \<open>Inl\<close> is a rejected promise.
\<close>

record env =
  credentials_file :: "credentials_json json_file"
  Date_now :: int
  provider_refresh :: "string option \<Rightarrow> error + tokens"
  provider_exchange :: "string \<Rightarrow> error + tokens"
  fs_writable :: bool
  port_listen :: "nat \<Rightarrow> listen_result"

text \<open>
  The two methods of the OAuth2 client of \<open>google-auth-library\<close> that the source calls,
  \<open>getToken(code)\<close> and \<open>refreshToken(refresh_token)\<close>, both resolve to an object
  \<open>{tokens, res}\<close>: the bundle is under the key \<open>tokens\<close> and there is no key
  \<open>credentials\<close> (that key belongs to the result of \<open>refreshAccessToken\<close>). The source
  reads the result by destructuring, so the result is a record of the two keys it reads,
  each \<open>None\<close> when the key is not there.
\<close>

record token_result =
  result_tokens :: "tokens option"
  result_credentials :: "tokens option"

definition library_result :: "tokens \<Rightarrow> token_result" where
  "library_result t = \<lparr>result_tokens = Some t, result_credentials = None\<rparr>"

definition getToken :: "env \<Rightarrow> string \<Rightarrow> error + token_result" where
  "getToken e code =
     (case provider_exchange e code of Inl err \<Rightarrow> Inl err | Inr t \<Rightarrow> Inr (library_result t))"

definition refreshToken :: "env \<Rightarrow> string option \<Rightarrow> error + token_result" where
  "refreshToken e rt =
     (case provider_refresh e rt of Inl err \<Rightarrow> Inl err | Inr t \<Rightarrow> Inr (library_result t))"

text \<open>What the methods change outside the object: the token file, with the number of
  times it was written, and the number of calls of \<open>open\<close>.\<close>

record world =
  token_file :: "tokens json_file"
  writeFile_calls :: nat
  open_calls :: nat

subsection \<open>loadCredentials and saveTokens\<close>

text \<open>Every failure inside \<open>loadCredentials\<close> is caught and rethrown as one error.\<close>

definition loadCredentials :: "env \<Rightarrow> error + client_config" where
  "loadCredentials e =
     (case credentials_file e of
        NoSuchFile \<Rightarrow> Inl LoadCredentialsFailed
      | NotJson \<Rightarrow> Inl LoadCredentialsFailed
      | Json credentials \<Rightarrow>
          (case web credentials of
             Some clientConfig \<Rightarrow> Inr clientConfig
           | None \<Rightarrow>
               (case installed credentials of
                  Some clientConfig \<Rightarrow> Inr clientConfig
                | None \<Rightarrow> Inl LoadCredentialsFailed)))"

text \<open>
  \<open>saveTokens(tokens)\<close> replaces the content of the token file; when \<open>mkdir\<close> or
  \<open>writeFile\<close> fails it throws, and the file is taken to keep its content. The argument is
  \<open>None\<close> when the caller passes \<open>undefined\<close>: \<open>JSON.stringify(undefined, null, 2)\<close> is
  \<open>undefined\<close>, and \<open>fs.writeFile\<close> rejects data that is not a string or a buffer before it
  opens the file.
\<close>

definition saveTokens :: "env \<Rightarrow> tokens option \<Rightarrow> world \<Rightarrow> (error + unit) \<times> world" where
  "saveTokens e tokens' w =
     (case tokens' of
        None \<Rightarrow> (Inl SaveTokensFailed, w)
      | Some t \<Rightarrow>
          if fs_writable e
          then (Inr (), w\<lparr>token_file := Json t, writeFile_calls := Suc (writeFile_calls w)\<rparr>)
          else (Inl SaveTokensFailed, w))"

subsection \<open>hasValidTokens\<close>

text \<open>\<open>tokens.expiry_date && tokens.expiry_date < Date.now()\<close>.\<close>

definition expired :: "env \<Rightarrow> tokens \<Rightarrow> bool" where
  "expired e t = (case expiry_date t of None \<Rightarrow> False | Some x \<Rightarrow> x \<noteq> 0 \<and> x < Date_now e)"

text \<open>The refresh branch reads the key \<open>credentials\<close> of the result:
  \<open>const { credentials: newCredentials } = await oAuth2Client.refreshToken(...)\<close>.\<close>

definition hasValidTokens :: "env \<Rightarrow> world \<Rightarrow> bool \<times> world" where
  "hasValidTokens e w =
     (case token_file w of
        NoSuchFile \<Rightarrow> (False, w)
      | NotJson \<Rightarrow> (False, w)
      | Json t \<Rightarrow>
          if \<not> truthy_str (access_token t) \<or> \<not> truthy_str (refresh_token t) then (False, w)
          else if expired e t then
            (case loadCredentials e of
               Inl err \<Rightarrow> (False, w)
             | Inr credentials \<Rightarrow>
                 (case refreshToken e (refresh_token t) of
                    Inl err \<Rightarrow> (False, w)
                  | Inr result \<Rightarrow>
                      (let newCredentials = result_credentials result
                       in (case saveTokens e newCredentials w of
                             (Inl err, w') \<Rightarrow> (False, w')
                           | (Inr u, w') \<Rightarrow> (True, w')))))
          else (True, w))"

subsection \<open>The request handler of createServer\<close>

text \<open>A request after \<open>new URL(req.url, ...)\<close>: the path and the two query parameters the
  handler reads (\<open>searchParams.get\<close> gives null for a parameter that is not there). The
  callback branch reads the key \<open>tokens\<close>: \<open>const { tokens } = await getToken(code)\<close>.\<close>

record request =
  pathname :: string
  query_code :: "string option"
  query_error :: "string option"

datatype page =
    AuthLinkPage
  | AuthorizationFailedPage string
  | MissingCodeText
  | SuccessPage
  | TokenSaveFailedPage
  | NotFoundText

definition handle_request ::
  "env \<Rightarrow> request \<Rightarrow> auth_server \<times> world \<Rightarrow> (nat \<times> page) \<times> auth_server \<times> world" where
  "handle_request e req sw =
     (case sw of (s, w) \<Rightarrow>
        if pathname req = ''/'' then ((200, AuthLinkPage), s, w)
        else if pathname req = ''/oauth2callback'' then
          (case (if truthy_str (query_error req) then query_error req else None) of
             Some err \<Rightarrow> ((400, AuthorizationFailedPage err), s, w)
           | None \<Rightarrow>
               (case (if truthy_str (query_code req) then query_code req else None) of
                  None \<Rightarrow> ((400, MissingCodeText), s, w)
                | Some code \<Rightarrow>
                    (case getToken e code of
                       Inl err \<Rightarrow>
                         ((500, TokenSaveFailedPage), s\<lparr>authCompletedSuccessfully := False\<rparr>, w)
                     | Inr result \<Rightarrow>
                         (case saveTokens e (result_tokens result) w of
                            (Inl err, w') \<Rightarrow>
                              ((500, TokenSaveFailedPage), s\<lparr>authCompletedSuccessfully := False\<rparr>, w')
                          | (Inr u, w') \<Rightarrow>
                              ((200, SuccessPage), s\<lparr>authCompletedSuccessfully := True\<rparr>, w')))))
        else ((404, NotFoundText), s, w))"

subsection \<open>start: the wait for the callback\<close>

text \<open>
  After \<open>start\<close> has armed its two timers the event loop runs callbacks one at a time:
  the interval fires (\<open>Tick\<close>), the five-minute timer fires (\<open>Timeout\<close>), a request is
  handled (\<open>Request\<close>), a socket connects or closes. The order of the callbacks is the
  input; \<open>interval_set\<close> and \<open>timeout_set\<close> say whether each timer is still armed,
  \<open>resolved\<close> is the state of the promise that \<open>start\<close> returns. A \<open>Request\<close> event
  stands for a whole run of the handler, placed where the handler writes the flag: the
  flag is written once, after the two awaits, and the timers only read it.
\<close>

datatype event = Tick | Timeout | Request request | Connection nat | SocketClose nat

record flow =
  interval_set :: bool
  timeout_set :: bool
  resolved :: "bool option"
  responses :: "(nat \<times> page) list"
  srv :: auth_server
  wld :: world

text \<open>\<open>resolve(v)\<close> settles the promise once; a later call changes nothing.\<close>

definition resolve :: "bool \<Rightarrow> flow \<Rightarrow> flow" where
  "resolve v f = (case resolved f of None \<Rightarrow> f\<lparr>resolved := Some v\<rparr> | Some r \<Rightarrow> f)"

definition step :: "env \<Rightarrow> event \<Rightarrow> flow \<Rightarrow> flow" where
  "step e ev f =
     (case ev of
        Tick \<Rightarrow>
          if interval_set f \<and> authCompletedSuccessfully (srv f)
          then resolve True (f\<lparr>interval_set := False\<rparr>)
          else f
      | Timeout \<Rightarrow>
          if timeout_set f then
            (let f' = f\<lparr>timeout_set := False, interval_set := False\<rparr>
             in if \<not> authCompletedSuccessfully (srv f') then resolve False f' else f')
          else f
      | Request req \<Rightarrow>
          (case handle_request e req (srv f, wld f) of
             (resp, s', w') \<Rightarrow> f\<lparr>responses := responses f @ [resp], srv := s', wld := w'\<rparr>)
      | Connection k \<Rightarrow>
          f\<lparr>srv := (srv f)\<lparr>activeConnections := insert k (activeConnections (srv f))\<rparr>\<rparr>
      | SocketClose k \<Rightarrow>
          f\<lparr>srv := (srv f)\<lparr>activeConnections := activeConnections (srv f) - {k}\<rparr>\<rparr>)"

fun run :: "env \<Rightarrow> event list \<Rightarrow> flow \<Rightarrow> flow" where
  "run e [] f = f"
| "run e (ev # evs) f = run e evs (step e ev f)"

text \<open>How a call of \<open>start\<close> ends: it returns a boolean, it throws, or its promise is never
  settled.\<close>

datatype outcome = Returned bool | Threw error | Pending

definition outcome_of :: "flow \<Rightarrow> outcome" where
  "outcome_of f = (case resolved f of None \<Rightarrow> Pending | Some b \<Rightarrow> Returned b)"

text \<open>\<open>if (openBrowser) { try { await open(authUrl) } catch ... }\<close>: whether \<open>open\<close>
  succeeds or throws, only the line that is logged differs.\<close>

definition open_browser :: "env \<Rightarrow> bool \<Rightarrow> world \<Rightarrow> world" where
  "open_browser e openBrowser w =
     (if openBrowser then w\<lparr>open_calls := Suc (open_calls w)\<rparr> else w)"

text \<open>
  The \<open>try\<close> block of \<open>start(openBrowser)\<close>, with the callbacks that follow the arming of
  the timers: an error of \<open>loadCredentials\<close> or of \<open>findAvailablePort\<close> leaves the block as
  an exception.
\<close>

definition start_try ::
  "env \<Rightarrow> bool \<Rightarrow> event list \<Rightarrow> auth_server \<times> world \<Rightarrow> outcome \<times> auth_server \<times> world" where
  "start_try e openBrowser evs sw =
     (case sw of (s, w) \<Rightarrow>
        (case hasValidTokens e w of
           (True, w1) \<Rightarrow> (Returned True, s\<lparr>authCompletedSuccessfully := True\<rparr>, w1)
         | (False, w1) \<Rightarrow>
             (case loadCredentials e of
                Inl err \<Rightarrow> (Threw err, s, w1)
              | Inr credentials \<Rightarrow>
                  (case findAvailablePort (port_listen e) s of
                     (Inl err, s1) \<Rightarrow> (Threw err, s1, w1)
                   | (Inr port, s1) \<Rightarrow>
                       (let f = run e evs
                                  \<lparr>interval_set = True, timeout_set = True, resolved = None,
                                   responses = [], srv = s1, wld = open_browser e openBrowser w1\<rparr>
                        in (outcome_of f, srv f, wld f))))))"

text \<open>\<open>start\<close>: the \<open>try\<close> block under \<open>catch (error) { ...; return false; }\<close>.\<close>

definition start ::
  "env \<Rightarrow> bool \<Rightarrow> event list \<Rightarrow> auth_server \<times> world \<Rightarrow> outcome \<times> auth_server \<times> world" where
  "start e openBrowser evs sw =
     (case start_try e openBrowser evs sw of
        (Threw err, s', w') \<Rightarrow> (Returned False, s', w')
      | (out, s', w') \<Rightarrow> (out, s', w'))"

subsection \<open>The success flag along a sequence of callbacks\<close>

text \<open>
  The functions of this subsection summarise \<open>handle_request\<close>, \<open>step\<close> and \<open>run\<close>; they
  are proved to agree with them before any statement relies on them.

  A request is a successful callback when it is on the redirect path, carries no error,
  carries a code that the provider exchanges for tokens, and the token path is writable;
  it is a failed exchange when it is on the redirect path with a code and without error
  and the exchange or the save fails.
\<close>

definition carries_code :: "request \<Rightarrow> bool" where
  "carries_code req =
     (pathname req = ''/oauth2callback'' \<and> \<not> truthy_str (query_error req)
      \<and> truthy_str (query_code req))"

definition exchange_saved :: "env \<Rightarrow> request \<Rightarrow> bool" where
  "exchange_saved e req =
     (case query_code req of
        None \<Rightarrow> False
      | Some code \<Rightarrow>
          (case provider_exchange e code of Inl err \<Rightarrow> False | Inr t \<Rightarrow> fs_writable e))"

definition successful_callback :: "env \<Rightarrow> request \<Rightarrow> bool" where
  "successful_callback e req = (carries_code req \<and> exchange_saved e req)"

definition failed_exchange :: "env \<Rightarrow> request \<Rightarrow> bool" where
  "failed_exchange e req = (carries_code req \<and> \<not> exchange_saved e req)"

text \<open>What handling a request does to \<open>authCompletedSuccessfully\<close>: set, cleared, or
  (\<open>None\<close>) not touched.\<close>

definition callback_result :: "env \<Rightarrow> request \<Rightarrow> bool option" where
  "callback_result e req =
     (if successful_callback e req then Some True
      else if failed_exchange e req then Some False
      else None)"

text \<open>The value of the flag after a sequence of callbacks, from its value before; the
  handler changes it at requests only.\<close>

fun flag_after :: "env \<Rightarrow> event list \<Rightarrow> bool \<Rightarrow> bool" where
  "flag_after e [] b = b"
| "flag_after e (Request req # evs) b =
     flag_after e evs (case callback_result e req of None \<Rightarrow> b | Some v \<Rightarrow> v)"
| "flag_after e (ev # evs) b = flag_after e evs b"

text \<open>The promise of \<open>start\<close> as the two timers settle it: a tick that finds the flag set
  resolves it to true; the timeout resolves it to false when the flag is not set, and
  clears the interval in any case.\<close>

fun poll :: "env \<Rightarrow> event list \<Rightarrow> bool \<Rightarrow> outcome" where
  "poll e [] b = Pending"
| "poll e (Tick # evs) b = (if b then Returned True else poll e evs b)"
| "poll e (Timeout # evs) b = (if b then Pending else Returned False)"
| "poll e (Request req # evs) b =
     poll e evs (case callback_result e req of None \<Rightarrow> b | Some v \<Rightarrow> v)"
| "poll e (Connection k # evs) b = poll e evs b"
| "poll e (SocketClose k # evs) b = poll e evs b"


subsection \<open>stop\<close>

text \<open>
  \<open>stop()\<close> destroys every tracked socket, empties the set and closes the listener; the
  promise resolves when the close callback runs or after 2000 ms, whichever comes first,
  and \<open>this.server\<close> is null then. \<open>close_after\<close> is the delay of the close callback in
  milliseconds, \<open>None\<close> when it never runs. The result gives the sockets destroyed and the
  time the caller waited.
\<close>

definition stop :: "nat option \<Rightarrow> auth_server \<Rightarrow> (nat set \<times> nat) \<times> auth_server" where
  "stop close_after s =
     (case server s of
        None \<Rightarrow> (({}, 0), s)
      | Some p \<Rightarrow>
          ((activeConnections s,
            (case close_after of None \<Rightarrow> 2000 | Some t \<Rightarrow> min t 2000)),
           s\<lparr>activeConnections := {}, server := None\<rparr>))"

subsection \<open>GoogleMeetAPI.initialize\<close>

text \<open>
  The token part of \<open>initialize\<close> reads the token file, refreshes an expired bundle with
  \<open>refreshToken(token.refresh_token)\<close>, reads the key \<open>credentials\<close> of the result and
  writes \<open>JSON.stringify(newCredentials)\<close> with \<open>fs.writeFile\<close>, which rejects when that is
  \<open>undefined\<close>; every error of that part is rethrown as one error.
\<close>

definition initialize :: "env \<Rightarrow> world \<Rightarrow> (error + unit) \<times> world" where
  "initialize e w =
     (case credentials_file e of
        NoSuchFile \<Rightarrow> (Inl ReadFailed, w)
      | NotJson \<Rightarrow> (Inl JsonParseFailed, w)
      | Json credentials \<Rightarrow>
          (case (case web credentials of Some c \<Rightarrow> Some c | None \<Rightarrow> installed credentials) of
             None \<Rightarrow> (Inl InvalidCredentialsFormat, w)
           | Some clientConfig \<Rightarrow>
               (case redirect_uris clientConfig of
                  None \<Rightarrow> (Inl TypeError, w)
                | Some uris \<Rightarrow>
                    (case token_file w of
                       NoSuchFile \<Rightarrow> (Inl NoValidToken, w)
                     | NotJson \<Rightarrow> (Inl NoValidToken, w)
                     | Json token \<Rightarrow>
                         if expired e token then
                           (case refreshToken e (refresh_token token) of
                              Inl err \<Rightarrow> (Inl NoValidToken, w)
                            | Inr result \<Rightarrow>
                                (case result_credentials result of
                                   None \<Rightarrow> (Inl NoValidToken, w)
                                 | Some newCredentials \<Rightarrow>
                                     if fs_writable e
                                     then (Inr (), w\<lparr>token_file := Json newCredentials,
                                                     writeFile_calls := Suc (writeFile_calls w)\<rparr>)
                                     else (Inl NoValidToken, w)))
                         else (Inr (), w)))))"

subsection \<open>GoogleMeetMcpServer: initializeAuthentication and cleanup\<close>

text \<open>
  \<open>initializeAuthentication\<close> tries \<open>initialize\<close>; when that throws it creates an
  \<open>AuthServer\<close>, awaits \<open>start(true)\<close> and on success calls \<open>initialize\<close> again. The result
  is the boolean returned (\<open>None\<close> when the call never returns), the \<open>authServer\<close> field
  of the server object, and the world.
\<close>

definition initializeAuthentication ::
  "env \<Rightarrow> event list \<Rightarrow> world \<Rightarrow> bool option \<times> auth_server option \<times> world" where
  "initializeAuthentication e evs w =
     (case initialize e w of
        (Inr u, w1) \<Rightarrow> (Some True, None, w1)
      | (Inl err, w1) \<Rightarrow>
          (case start e True evs (new_AuthServer, w1) of
             (Returned True, s, w2) \<Rightarrow>
               (case initialize e w2 of
                  (Inr u, w3) \<Rightarrow> (Some True, Some s, w3)
                | (Inl err', w3) \<Rightarrow> (Some False, Some s, w3))
           | (Returned False, s, w2) \<Rightarrow> (Some False, Some s, w2)
           | (Threw err', s, w2) \<Rightarrow> (Some False, Some s, w2)
           | (Pending, s, w2) \<Rightarrow> (None, Some s, w2)))"

text \<open>\<open>cleanup\<close>, run on SIGINT: \<open>if (this.authServer) await this.authServer.stop()\<close>.\<close>

definition cleanup :: "nat option \<Rightarrow> auth_server option \<Rightarrow> auth_server option" where
  "cleanup close_after authServer =
     (case authServer of None \<Rightarrow> None | Some s \<Rightarrow> Some (snd (stop close_after s)))"

section \<open>GoogleMeetAPI: calendar events and meeting records\<close>

text \<open>
  A Google Calendar event as the provider returns it (\<open>response.data\<close>), with the fields
  the source reads. The fields \<open>id\<close>, \<open>start\<close> and \<open>end\<close> are named \<open>event_id\<close>,
  \<open>event_start\<close> and \<open>event_end\<close> here. Strings are byte lists (UTF-8).
\<close>

record event_time =
  dateTime :: "string option"
  date :: "string option"

record entry_point =
  entryPointType :: "string option"
  uri :: "string option"
  label :: "string option"

record conference_data =
  entryPoints :: "entry_point list option"
  conferenceId :: "string option"
  createRequest_requestId :: "string option"

record attendee =
  email :: "string option"
  responseStatus :: "string option"
  optional :: "bool option"

record calendar_event =
  event_id :: "string option"
  summary :: "string option"
  description :: "string option"
  event_start :: "event_time option"
  event_end :: "event_time option"
  attendees :: "attendee list option"
  conferenceData :: "conference_data option"
  created :: "string option"
  updated :: "string option"
  creator :: "string option"
  organizer :: "string option"
  status :: "string option"
  htmlLink :: "string option"
  location :: "string option"

text \<open>The record \<open>_formatMeetingData\<close> returns; a field that can be \<open>undefined\<close> is an option.\<close>

record meeting_attendee =
  attendee_email :: "string option"
  attendee_status :: string
  attendee_optional :: bool

record meeting =
  meeting_id :: "string option"
  meeting_summary :: string
  meeting_description :: string
  start_time :: "string option"
  end_time :: "string option"
  meet_link :: "string option"
  phone_info :: string
  meeting_attendees :: "meeting_attendee list"
  meeting_created :: "string option"
  meeting_updated :: "string option"
  meeting_creator :: "string option"
  meeting_organizer :: "string option"
  meeting_status :: "string option"
  html_link :: "string option"
  conference_id :: string
  meeting_location :: string

text \<open>The default title, the three characters U+7121 U+6A19 U+984C in UTF-8.\<close>

definition untitled :: string where
  "untitled = [CHR 0xE7, CHR 0x84, CHR 0xA1, CHR 0xE6, CHR 0xA8, CHR 0x99, CHR 0xE9, CHR 0xA1, CHR 0x8C]"

text \<open>
  \<open>String.prototype.trim\<close> removes white space and line terminators from both ends:
  U+0009 to U+000D, U+0020, U+00A0, U+1680, U+2000 to U+200A, U+2028, U+2029, U+202F,
  U+205F, U+3000 and U+FEFF, here as their UTF-8 byte sequences.
\<close>

definition white_space :: "string list" where
  "white_space =
     [[CHR 0x09], [CHR 0x0A], [CHR 0x0B], [CHR 0x0C], [CHR 0x0D], [CHR 0x20],
      [CHR 0xC2, CHR 0xA0], [CHR 0xE1, CHR 0x9A, CHR 0x80],
      [CHR 0xE2, CHR 0x80, CHR 0x80], [CHR 0xE2, CHR 0x80, CHR 0x81],
      [CHR 0xE2, CHR 0x80, CHR 0x82], [CHR 0xE2, CHR 0x80, CHR 0x83],
      [CHR 0xE2, CHR 0x80, CHR 0x84], [CHR 0xE2, CHR 0x80, CHR 0x85],
      [CHR 0xE2, CHR 0x80, CHR 0x86], [CHR 0xE2, CHR 0x80, CHR 0x87],
      [CHR 0xE2, CHR 0x80, CHR 0x88], [CHR 0xE2, CHR 0x80, CHR 0x89],
      [CHR 0xE2, CHR 0x80, CHR 0x8A], [CHR 0xE2, CHR 0x80, CHR 0xA8],
      [CHR 0xE2, CHR 0x80, CHR 0xA9], [CHR 0xE2, CHR 0x80, CHR 0xAF],
      [CHR 0xE2, CHR 0x81, CHR 0x9F], [CHR 0xE3, CHR 0x80, CHR 0x80],
      [CHR 0xEF, CHR 0xBB, CHR 0xBF]]"

text \<open>Removing from the front of \<open>s\<close> every leading sequence of the list \<open>ws\<close>.\<close>

function strip_leading :: "string list \<Rightarrow> string \<Rightarrow> string" where
  "strip_leading ws s =
     (case find (\<lambda>x. x \<noteq> [] \<and> take (length x) s = x) ws of
        None \<Rightarrow> s
      | Some x \<Rightarrow> strip_leading ws (drop (length x) s))"
  by pat_completeness auto
termination
proof (relation "measure (\<lambda>(ws, s). length s)")
  show "wf (measure (\<lambda>(ws, s). length s))" by simp
next
  fix ws :: "string list" and s x :: string
  assume "find (\<lambda>x. x \<noteq> [] \<and> take (length x) s = x) ws = Some x"
  then have "x \<noteq> []" and "take (length x) s = x"
    by (auto simp: find_Some_iff)
  then have "0 < length x" by simp
  moreover from \<open>take (length x) s = x\<close> have "length (take (length x) s) = length x"
    by simp
  then have "length x \<le> length s" by simp
  ultimately show "((ws, drop (length x) s), (ws, s)) \<in> measure (\<lambda>(ws, s). length s)"
    by (cases x) auto
qed

declare strip_leading.simps [simp del]

definition trim :: "string \<Rightarrow> string" where
  "trim s = rev (strip_leading (map rev white_space) (rev (strip_leading white_space s)))"

subsection \<open>_formatMeetingData\<close>

definition formatAttendee :: "attendee \<Rightarrow> meeting_attendee" where
  "formatAttendee a =
     \<lparr>attendee_email = email a,
      attendee_status = or_default (responseStatus a) ''needsAction'',
      attendee_optional = (case optional a of None \<Rightarrow> False | Some b \<Rightarrow> b)\<rparr>"

text \<open>\<open>meetLink\<close> after the \<open>if (event.conferenceData.entryPoints)\<close> block: it starts as
  \<open>''\<close> and becomes \<open>videoEntry.uri\<close> when a video entry point is found.\<close>

definition meetLink_of :: "conference_data \<Rightarrow> string option" where
  "meetLink_of cd =
     (case entryPoints cd of
        None \<Rightarrow> Some []
      | Some eps \<Rightarrow>
          (case find (\<lambda>ep. entryPointType ep = Some ''video'') eps of
             None \<Rightarrow> Some []
           | Some videoEntry \<Rightarrow> uri videoEntry))"

definition phoneInfo_of :: "conference_data \<Rightarrow> string" where
  "phoneInfo_of cd =
     (case entryPoints cd of
        None \<Rightarrow> []
      | Some eps \<Rightarrow>
          (case find (\<lambda>ep. entryPointType ep = Some ''phone'') eps of
             None \<Rightarrow> []
           | Some phoneEntry \<Rightarrow>
               trim (or_default (label phoneEntry) [] @ '' '' @ or_default (uri phoneEntry) [])))"

text \<open>
  The argument is \<open>None\<close> for a falsy \<open>event\<close>. Reading \<open>event.start.dateTime\<close> when
  \<open>event.start\<close> is undefined throws a TypeError, and so does \<open>event.end\<close>.
\<close>

definition formatMeetingData :: "calendar_event option \<Rightarrow> error + meeting option" where
  "formatMeetingData ev =
     (case ev of
        None \<Rightarrow> Inr None
      | Some event \<Rightarrow>
          (case conferenceData event of
             None \<Rightarrow> Inr None
           | Some cd \<Rightarrow>
               (case event_start event of
                  None \<Rightarrow> Inl TypeError
                | Some st \<Rightarrow>
                    (case event_end event of
                       None \<Rightarrow> Inl TypeError
                     | Some en \<Rightarrow>
                         Inr (Some
                           \<lparr>meeting_id = event_id event,
                            meeting_summary = or_default (summary event) untitled,
                            meeting_description = or_default (description event) [],
                            start_time = or_str (dateTime st) (date st),
                            end_time = or_str (dateTime en) (date en),
                            meet_link = meetLink_of cd,
                            phone_info = phoneInfo_of cd,
                            meeting_attendees =
                              map formatAttendee (case attendees event of None \<Rightarrow> [] | Some as \<Rightarrow> as),
                            meeting_created = created event,
                            meeting_updated = updated event,
                            meeting_creator = creator event,
                            meeting_organizer = organizer event,
                            meeting_status = status event,
                            html_link = htmlLink event,
                            conference_id = or_default (conferenceId cd) [],
                            meeting_location = or_default (location event) []\<rparr>)))))"

subsection \<open>The provider\<close>

text \<open>
  The calendar client of \<open>googleapis\<close> is outside the repository: its calls are parameters.
  \<open>events_list\<close> answers \<open>calendar.events.list\<close> for a calendar id and the two time bounds
  with \<open>response.data.items\<close> (which can be undefined), the others answer with
  \<open>response.data\<close>; \<open>Inl\<close> is a rejected promise.
\<close>

record calendar_api =
  events_get :: "string \<Rightarrow> error + calendar_event"
  events_insert :: "calendar_event \<Rightarrow> error + calendar_event"
  events_update :: "string \<Rightarrow> calendar_event \<Rightarrow> error + calendar_event"
  events_list :: "string \<Rightarrow> string \<Rightarrow> string \<Rightarrow> error + calendar_event list option"

subsection \<open>getMeeting\<close>

text \<open>Every error thrown in the \<open>try\<close> block is caught and rethrown with a new message.\<close>

datatype api_error =
    NoConferenceData
  | CannotFormat
  | Wrapped error

definition getMeeting :: "calendar_api \<Rightarrow> string \<Rightarrow> api_error + meeting" where
  "getMeeting api meetingId =
     (case events_get api meetingId of
        Inl e \<Rightarrow> Inl (Wrapped e)
      | Inr event \<Rightarrow>
          (case conferenceData event of
             None \<Rightarrow> Inl NoConferenceData
           | Some cd \<Rightarrow>
               (case formatMeetingData (Some event) of
                  Inl e \<Rightarrow> Inl (Wrapped e)
                | Inr None \<Rightarrow> Inl CannotFormat
                | Inr (Some m) \<Rightarrow> Inr m)))"

subsection \<open>createMeeting\<close>

text \<open>Decimal digits of \<open>Date.now()\<close>, as the template literal prints a number.\<close>

function dec :: "nat \<Rightarrow> string" where
  "dec n = (if n < 10 then [''0123456789'' ! n] else dec (n div 10) @ [''0123456789'' ! (n mod 10)])"
  by pat_completeness auto
termination
  by (relation "measure (\<lambda>n. n)") auto

declare dec.simps [simp del]

text \<open>
  \<open>`meet-${Date.now()}-${Math.random().toString(36).substr(2, 9)}`\<close>. The first argument
  is \<open>Date.now()\<close>, the second is the string \<open>Math.random().toString(36)\<close>: \<open>0.\<close> followed by
  the base-36 digits of the fraction, or \<open>0\<close> alone.
\<close>

definition substr_2_9 :: "string \<Rightarrow> string" where
  "substr_2_9 s = take 9 (drop 2 s)"

definition requestId :: "nat \<Rightarrow> string \<Rightarrow> string" where
  "requestId now_ms random36 = ''meet-'' @ dec now_ms @ ''-'' @ substr_2_9 random36"

text \<open>The \<open>event\<close> object that \<open>createMeeting\<close> passes as \<open>resource\<close>.\<close>

definition createMeeting_event ::
  "nat \<Rightarrow> string \<Rightarrow> string \<Rightarrow> string \<Rightarrow> string \<Rightarrow> string \<Rightarrow> string list \<Rightarrow> calendar_event" where
  "createMeeting_event now_ms random36 summary' startTime endTime description' attendees' =
     \<lparr>event_id = None,
      summary = Some summary',
      description = Some description',
      event_start = Some \<lparr>dateTime = Some startTime, date = None\<rparr>,
      event_end = Some \<lparr>dateTime = Some endTime, date = None\<rparr>,
      attendees = Some (map (\<lambda>e. \<lparr>email = Some e, responseStatus = None, optional = None\<rparr>) attendees'),
      conferenceData = Some \<lparr>entryPoints = None, conferenceId = None,
                             createRequest_requestId = Some (requestId now_ms random36)\<rparr>,
      created = None, updated = None, creator = None, organizer = None, status = None,
      htmlLink = None, location = None\<rparr>"

definition createMeeting ::
  "calendar_api \<Rightarrow> nat \<Rightarrow> string \<Rightarrow> string \<Rightarrow> string \<Rightarrow> string \<Rightarrow> string \<Rightarrow> string list
     \<Rightarrow> api_error + meeting" where
  "createMeeting api now_ms random36 summary' startTime endTime description' attendees' =
     (case events_insert api
             (createMeeting_event now_ms random36 summary' startTime endTime description' attendees') of
        Inl e \<Rightarrow> Inl (Wrapped e)
      | Inr createdEvent \<Rightarrow>
          (case formatMeetingData (Some createdEvent) of
             Inl e \<Rightarrow> Inl (Wrapped e)
           | Inr None \<Rightarrow> Inl CannotFormat
           | Inr (Some m) \<Rightarrow> Inr m))"

subsection \<open>updateMeeting\<close>

text \<open>The destructured second argument: a field is \<open>None\<close> when it is \<open>undefined\<close>.\<close>

record update_fields =
  update_summary :: "string option"
  update_description :: "string option"
  update_startTime :: "string option"
  update_endTime :: "string option"
  update_attendees :: "string list option"

text \<open>The \<open>updates\<close> object: a copy of the existing event (\<open>{...existingEvent}\<close>), then one
  assignment for each argument that is not \<open>undefined\<close>.\<close>

definition updates_of :: "calendar_event \<Rightarrow> update_fields \<Rightarrow> calendar_event" where
  "updates_of existingEvent u =
     (let updates = existingEvent;
          updates = (case update_summary u of None \<Rightarrow> updates
                     | Some v \<Rightarrow> updates\<lparr>summary := Some v\<rparr>);
          updates = (case update_description u of None \<Rightarrow> updates
                     | Some v \<Rightarrow> updates\<lparr>description := Some v\<rparr>);
          updates = (case update_startTime u of None \<Rightarrow> updates
                     | Some v \<Rightarrow> updates\<lparr>event_start := Some \<lparr>dateTime = Some v, date = None\<rparr>\<rparr>);
          updates = (case update_endTime u of None \<Rightarrow> updates
                     | Some v \<Rightarrow> updates\<lparr>event_end := Some \<lparr>dateTime = Some v, date = None\<rparr>\<rparr>);
          updates = (case update_attendees u of None \<Rightarrow> updates
                     | Some v \<Rightarrow> updates\<lparr>attendees :=
                         Some (map (\<lambda>e. \<lparr>email = Some e, responseStatus = None, optional = None\<rparr>) v)\<rparr>)
      in updates)"

definition updateMeeting :: "calendar_api \<Rightarrow> string \<Rightarrow> update_fields \<Rightarrow> api_error + meeting" where
  "updateMeeting api meetingId u =
     (case events_get api meetingId of
        Inl e \<Rightarrow> Inl (Wrapped e)
      | Inr existingEvent \<Rightarrow>
          (case events_update api meetingId (updates_of existingEvent u) of
             Inl e \<Rightarrow> Inl (Wrapped e)
           | Inr updatedEvent \<Rightarrow>
               (case formatMeetingData (Some updatedEvent) of
                  Inl e \<Rightarrow> Inl (Wrapped e)
                | Inr None \<Rightarrow> Inl CannotFormat
                | Inr (Some m) \<Rightarrow> Inr m)))"

subsection \<open>checkTimeConflicts and checkAvailability\<close>

text \<open>
  \<open>new Date(x)\<close> is \<open>None\<close> for an Invalid Date and the epoch milliseconds otherwise. The
  parser of ISO strings belongs to the JavaScript runtime and is a parameter;
  \<open>new Date(undefined)\<close> is an Invalid Date. \<open>a < b\<close> on two dates compares the numbers and
  is false as soon as one of them is NaN.
\<close>

definition new_Date :: "(string \<Rightarrow> int option) \<Rightarrow> string option \<Rightarrow> int option" where
  "new_Date parse x = (case x of None \<Rightarrow> None | Some s \<Rightarrow> parse s)"

definition date_lt :: "int option \<Rightarrow> int option \<Rightarrow> bool" where
  "date_lt a b = (case a of None \<Rightarrow> False | Some x \<Rightarrow> (case b of None \<Rightarrow> False | Some y \<Rightarrow> x < y))"

record conflict =
  conflict_id :: "string option"
  conflict_summary :: string
  conflict_start_time :: "string option"
  conflict_end_time :: "string option"
  calendar :: string

text \<open>The inner loop \<open>for (const event of events)\<close>, pushing onto \<open>conflicts\<close>.\<close>

fun scan_events ::
  "(string \<Rightarrow> int option) \<Rightarrow> string \<Rightarrow> string \<Rightarrow> string \<Rightarrow> calendar_event list \<Rightarrow> conflict list
     \<Rightarrow> error + conflict list" where
  "scan_events parse startTime endTime calendarId [] conflicts = Inr conflicts"
| "scan_events parse startTime endTime calendarId (event # events) conflicts =
     (case event_start event of
        None \<Rightarrow> Inl TypeError
      | Some st \<Rightarrow>
          (case event_end event of
             None \<Rightarrow> Inl TypeError
           | Some en \<Rightarrow>
               (let eventStart = new_Date parse (or_str (dateTime st) (date st));
                    eventEnd = new_Date parse (or_str (dateTime en) (date en));
                    checkStart = new_Date parse (Some startTime);
                    checkEnd = new_Date parse (Some endTime)
                in if date_lt eventStart checkEnd \<and> date_lt checkStart eventEnd
                   then scan_events parse startTime endTime calendarId events
                          (conflicts @
                            [\<lparr>conflict_id = event_id event,
                              conflict_summary = or_default (summary event) untitled,
                              conflict_start_time = or_str (dateTime st) (date st),
                              conflict_end_time = or_str (dateTime en) (date en),
                              calendar = calendarId\<rparr>])
                   else scan_events parse startTime endTime calendarId events conflicts)))"

text \<open>The outer loop \<open>for (const calendarId of calendars)\<close>.\<close>

fun scan_calendars ::
  "(string \<Rightarrow> int option) \<Rightarrow> calendar_api \<Rightarrow> string \<Rightarrow> string \<Rightarrow> string list \<Rightarrow> conflict list
     \<Rightarrow> error + conflict list" where
  "scan_calendars parse api startTime endTime [] conflicts = Inr conflicts"
| "scan_calendars parse api startTime endTime (calendarId # calendars) conflicts =
     (case events_list api calendarId startTime endTime of
        Inl e \<Rightarrow> Inl e
      | Inr items \<Rightarrow>
          (case scan_events parse startTime endTime calendarId
                  (case items of None \<Rightarrow> [] | Some evs \<Rightarrow> evs) conflicts of
             Inl e \<Rightarrow> Inl e
           | Inr conflicts' \<Rightarrow> scan_calendars parse api startTime endTime calendars conflicts'))"

definition checkTimeConflicts ::
  "(string \<Rightarrow> int option) \<Rightarrow> calendar_api \<Rightarrow> string \<Rightarrow> string \<Rightarrow> string list
     \<Rightarrow> api_error + conflict list" where
  "checkTimeConflicts parse api startTime endTime calendars =
     (case scan_calendars parse api startTime endTime calendars [] of
        Inl e \<Rightarrow> Inl (Wrapped e)
      | Inr conflicts \<Rightarrow> Inr conflicts)"

record availability =
  available :: bool
  conflicts_found :: "conflict list"
  checked_calendars :: "string list"
  time_range :: "string \<times> string"

definition checkAvailability ::
  "(string \<Rightarrow> int option) \<Rightarrow> calendar_api \<Rightarrow> string \<Rightarrow> string \<Rightarrow> string list
     \<Rightarrow> api_error + availability" where
  "checkAvailability parse api startTime endTime calendars =
     (case checkTimeConflicts parse api startTime endTime calendars of
        Inl e \<Rightarrow> Inl e
      | Inr conflicts \<Rightarrow>
          Inr \<lparr>available = (length conflicts = 0),
               conflicts_found = conflicts,
               checked_calendars = calendars,
               time_range = (startTime, endTime)\<rparr>)"

text \<open>The default \<open>calendars = ['primary']\<close>.\<close>

definition calendars_default :: "string list" where
  "calendars_default = [''primary'']"

subsection \<open>The overlap test, as the specification words it\<close>

text \<open>\<open>existingStart < queryEnd AND queryStart < existingEnd\<close>.\<close>

definition overlap_test :: "int option \<Rightarrow> int option \<Rightarrow> int option \<Rightarrow> int option \<Rightarrow> bool" where
  "overlap_test existingStart existingEnd queryStart queryEnd =
     (date_lt existingStart queryEnd \<and> date_lt queryStart existingEnd)"

text \<open>\<open>event.start.dateTime || event.start.date\<close> and its counterpart for the end.\<close>

definition start_string :: "calendar_event \<Rightarrow> string option" where
  "start_string event =
     (case event_start event of None \<Rightarrow> None | Some st \<Rightarrow> or_str (dateTime st) (date st))"

definition end_string :: "calendar_event \<Rightarrow> string option" where
  "end_string event =
     (case event_end event of None \<Rightarrow> None | Some en \<Rightarrow> or_str (dateTime en) (date en))"

definition event_overlaps :: "(string \<Rightarrow> int option) \<Rightarrow> string \<Rightarrow> string \<Rightarrow> calendar_event \<Rightarrow> bool" where
  "event_overlaps parse startTime endTime event =
     overlap_test (new_Date parse (start_string event)) (new_Date parse (end_string event))
       (new_Date parse (Some startTime)) (new_Date parse (Some endTime))"

definition conflict_of :: "string \<Rightarrow> calendar_event \<Rightarrow> conflict" where
  "conflict_of calendarId event =
     \<lparr>conflict_id = event_id event,
      conflict_summary = or_default (summary event) untitled,
      conflict_start_time = start_string event,
      conflict_end_time = end_string event,
      calendar = calendarId\<rparr>"

text \<open>The events the provider lists for one calendar (\<open>response.data.items || []\<close>).\<close>

definition listed :: "calendar_api \<Rightarrow> string \<Rightarrow> string \<Rightarrow> string \<Rightarrow> calendar_event list" where
  "listed api startTime endTime calendarId =
     (case events_list api calendarId startTime endTime of Inr (Some evs) \<Rightarrow> evs | _ \<Rightarrow> [])"

text \<open>The conflicts the specification asks for: per calendar, in order, the listed events
  that pass the overlap test.\<close>

definition overlapping_conflicts ::
  "(string \<Rightarrow> int option) \<Rightarrow> calendar_api \<Rightarrow> string \<Rightarrow> string \<Rightarrow> string list \<Rightarrow> conflict list" where
  "overlapping_conflicts parse api startTime endTime calendars =
     concat (map (\<lambda>c. map (conflict_of c)
                        (filter (event_overlaps parse startTime endTime) (listed api startTime endTime c)))
                 calendars)"

text \<open>An event has its \<open>start\<close> and \<open>end\<close> objects.\<close>

definition has_start_end :: "calendar_event \<Rightarrow> bool" where
  "has_start_end event = (event_start event \<noteq> None \<and> event_end event \<noteq> None)"

text \<open>The provider answers every \<open>events.list\<close> of the query, with events that have start and end.\<close>

definition lists_answered :: "calendar_api \<Rightarrow> string \<Rightarrow> string \<Rightarrow> string list \<Rightarrow> bool" where
  "lists_answered api startTime endTime calendars =
     list_all (\<lambda>c. (case events_list api c startTime endTime of Inl _ \<Rightarrow> False | Inr _ \<Rightarrow> True)
                  \<and> list_all has_start_end (listed api startTime endTime c)) calendars"

subsection \<open>What the provider is assumed to keep on an update\<close>

text \<open>The event returned by \<open>calendar.events.update\<close> carries the five user fields of the
  resource that was written, and still has its conference data.\<close>

definition provider_keeps :: "calendar_event \<Rightarrow> calendar_event \<Rightarrow> bool" where
  "provider_keeps written returned =
     (summary returned = summary written \<and> description returned = description written
      \<and> event_start returned = event_start written \<and> event_end returned = event_end written
      \<and> attendees returned = attendees written \<and> conferenceData returned \<noteq> None)"

section \<open>Example inputs\<close>

definition example_parse :: "string \<Rightarrow> int option" where
  "example_parse =
     map_of [(''2025-01-01T09:30:00Z'', 1735723800000), (''2025-01-01T10:00:00Z'', 1735725600000),
             (''2025-01-01T10:30:00Z'', 1735727400000), (''2025-01-01T11:00:00Z'', 1735729200000),
             (''2025-01-01T12:00:00Z'', 1735732800000)]"

definition example_event :: "string \<Rightarrow> string \<Rightarrow> string \<Rightarrow> calendar_event" where
  "example_event i st en =
     \<lparr>event_id = Some i, summary = None, description = None,
      event_start = Some \<lparr>dateTime = Some st, date = None\<rparr>,
      event_end = Some \<lparr>dateTime = Some en, date = None\<rparr>,
      attendees = None, conferenceData = None, created = None, updated = None, creator = None,
      organizer = None, status = None, htmlLink = None, location = None\<rparr>"

definition example_meeting_event :: calendar_event where
  "example_meeting_event =
     \<lparr>event_id = Some ''evt1'', summary = Some ''Old'', description = None,
      event_start = Some \<lparr>dateTime = Some ''2025-01-01T10:00:00Z'', date = None\<rparr>,
      event_end = Some \<lparr>dateTime = Some ''2025-01-01T11:00:00Z'', date = None\<rparr>,
      attendees = Some [\<lparr>email = Some ''a@example.com'', responseStatus = None, optional = None\<rparr>],
      conferenceData = Some
        \<lparr>entryPoints = Some [\<lparr>entryPointType = Some ''video'',
                               uri = Some ''https://meet.google.com/abc-defg-hij'', label = None\<rparr>],
         conferenceId = Some ''abc-defg-hij'', createRequest_requestId = None\<rparr>,
      created = None, updated = None, creator = None, organizer = None, status = Some ''confirmed'',
      htmlLink = None, location = None\<rparr>"

definition example_api :: calendar_api where
  "example_api =
     \<lparr>events_get = (\<lambda>i. if i = ''evt1'' then Inr example_meeting_event else Inl ProviderError),
      events_insert = (\<lambda>ev. Inr ev),
      events_update = (\<lambda>i ev. Inr ev),
      events_list = (\<lambda>c s e. if c = ''primary''
         then Inr (Some [example_event ''a'' ''2025-01-01T09:30:00Z'' ''2025-01-01T10:30:00Z'',
                         example_event ''b'' ''2025-01-01T11:00:00Z'' ''2025-01-01T12:00:00Z''])
         else Inr None)\<rparr>"

definition example_update :: update_fields where
  "example_update =
     \<lparr>update_summary = Some ''New'', update_description = None, update_startTime = None,
      update_endTime = None, update_attendees = None\<rparr>"

definition example_tokens :: tokens where
  "example_tokens =
     \<lparr>access_token = Some ''ya29.a0'', refresh_token = Some ''1//0g'',
      expiry_date = Some 1735729200000, scope = Some ''https://www.googleapis.com/auth/calendar'',
      token_type = Some ''Bearer''\<rparr>"

text \<open>A clock at 2025-01-01T10:00:00Z, a desktop credentials file, a provider that
  accepts the code \<open>good\<close> and refuses every refresh, a writable token path, all ports free.\<close>

definition example_env :: env where
  "example_env =
     \<lparr>credentials_file = Json \<lparr>web = None,
         installed = Some \<lparr>client_id = Some ''id'', client_secret = Some ''secret'',
                            redirect_uris = Some [''http://localhost'']\<rparr>\<rparr>,
      Date_now = 1735725600000,
      provider_refresh = (\<lambda>r. Inl RefreshFailed),
      provider_exchange = (\<lambda>c. if c = ''good'' then Inr example_tokens else Inl TokenExchangeFailed),
      fs_writable = True,
      port_listen = (\<lambda>p. Listens)\<rparr>"

definition empty_world :: world where
  "empty_world = \<lparr>token_file = NoSuchFile, writeFile_calls = 0, open_calls = 0\<rparr>"

definition callback :: "string option \<Rightarrow> string option \<Rightarrow> request" where
  "callback code err = \<lparr>pathname = ''/oauth2callback'', query_code = code, query_error = err\<rparr>"

text \<open>The same, with a provider that accepts every refresh and answers with a bundle that
  expires at 11:00:00Z.\<close>

definition refreshing_env :: env where
  "refreshing_env = example_env\<lparr>provider_refresh := (\<lambda>r. Inr example_tokens)\<rparr>"

text \<open>A token file whose bundle expired at 09:00:00Z.\<close>

definition expired_world :: world where
  "expired_world =
     \<lparr>token_file = Json (example_tokens\<lparr>expiry_date := Some 1735722000000\<rparr>),
      writeFile_calls = 0, open_calls = 0\<rparr>"

definition example_video_without_uri :: calendar_event where
  "example_video_without_uri =
     example_meeting_event
       \<lparr>conferenceData := Some
          \<lparr>entryPoints = Some [\<lparr>entryPointType = Some ''video'', uri = None, label = None\<rparr>],
           conferenceId = Some ''abc-defg-hij'', createRequest_requestId = None\<rparr>\<rparr>"

section \<open>Port selection\<close>

lemma findAvailablePort_from_skip:
  assumes "\<forall>q. a \<le> q \<and> q < p \<longrightarrow> listen q = EADDRINUSE" and "a \<le> p"
  shows "findAvailablePort_from listen a e s = findAvailablePort_from listen p e s \<or> e < p"
  using assms
proof (induction listen a e s rule: findAvailablePort_from.induct)
  case (1 listen port endPort s)
  show ?case
  proof (cases "port = p")
    case True
    then show ?thesis by simp
  next
    case False
    with "1.prems" have lt: "port < p" by simp
    show ?thesis
    proof (cases "p \<le> endPort")
      case False
      then show ?thesis by simp
    next
      case True
      with lt have le: "port \<le> endPort" by simp
      from "1.prems" lt have busy: "listen port = EADDRINUSE" by simp
      have "findAvailablePort_from listen (Suc port) endPort s = findAvailablePort_from listen p endPort s
            \<or> endPort < p"
        using "1.IH" [OF le busy] "1.prems" lt by simp
      with True le busy show ?thesis
        by (simp add: findAvailablePort_from.simps [of listen port])
    qed
  qed
qed

lemma findAvailablePort_from_all_busy:
  assumes "\<forall>q. a \<le> q \<and> q \<le> e \<longrightarrow> listen q = EADDRINUSE"
  shows "findAvailablePort_from listen a e s = (Inl NoPortAvailable, s)"
  using assms
proof (induction listen a e s rule: findAvailablePort_from.induct)
  case (1 listen port endPort s)
  show ?case
  proof (cases "port \<le> endPort")
    case True
    with "1.prems" have busy: "listen port = EADDRINUSE" by simp
    have "findAvailablePort_from listen (Suc port) endPort s = (Inl NoPortAvailable, s)"
      using "1.IH" [OF True busy] "1.prems" by simp
    with True busy show ?thesis
      by (simp add: findAvailablePort_from.simps [of listen port])
  next
    case False
    then show ?thesis
      by (simp add: findAvailablePort_from.simps [of listen port])
  qed
qed

text \<open>
  C3. The listener is bound to the lowest port of 3000..3010 that is free: when every
  port below \<open>p\<close> in the range is occupied and \<open>p\<close> is free, the port \<open>p\<close> is returned and
  \<open>this.server\<close> is the listener on \<open>p\<close>; when every port of the range is occupied, the
  function fails with the no-port-available error and \<open>this.server\<close> is left as it was
  (no listener).
\<close>

theorem findAvailablePort_first_free:
  "(3000 \<le> p \<and> p \<le> 3010 \<and> (\<forall>q. 3000 \<le> q \<and> q < p \<longrightarrow> listen q = EADDRINUSE) \<and> listen p = Listens
      \<longrightarrow> findAvailablePort listen s = (Inr p, s\<lparr>server := Some p\<rparr>))
   \<and> ((\<forall>q. 3000 \<le> q \<and> q \<le> 3010 \<longrightarrow> listen q = EADDRINUSE)
      \<longrightarrow> findAvailablePort listen s = (Inl NoPortAvailable, s))"
proof (intro conjI impI)
  assume h: "3000 \<le> p \<and> p \<le> 3010 \<and> (\<forall>q. 3000 \<le> q \<and> q < p \<longrightarrow> listen q = EADDRINUSE) \<and> listen p = Listens"
  then have "findAvailablePort_from listen 3000 3010 s = findAvailablePort_from listen p 3010 s \<or> 3010 < p"
    using findAvailablePort_from_skip [of 3000 p listen 3010 s] by simp
  with h have "findAvailablePort_from listen 3000 3010 s = findAvailablePort_from listen p 3010 s"
    by simp
  with h show "findAvailablePort listen s = (Inr p, s\<lparr>server := Some p\<rparr>)"
    by (simp add: findAvailablePort_def startPort_default_def endPort_default_def
        findAvailablePort_from.simps [of listen p])
next
  assume "\<forall>q. 3000 \<le> q \<and> q \<le> 3010 \<longrightarrow> listen q = EADDRINUSE"
  then show "findAvailablePort listen s = (Inl NoPortAvailable, s)"
    using findAvailablePort_from_all_busy [of 3000 3010 listen s]
    by (simp add: findAvailablePort_def startPort_default_def endPort_default_def)
qed

theorem findAvailablePort_first_free_witness:
  "findAvailablePort (\<lambda>q. if q < 3003 then EADDRINUSE else Listens) new_AuthServer
     = (Inr 3003, new_AuthServer\<lparr>server := Some 3003\<rparr>)
   \<and> findAvailablePort (\<lambda>q. EADDRINUSE) new_AuthServer = (Inl NoPortAvailable, new_AuthServer)"
  using findAvailablePort_first_free [of 3003 "\<lambda>q. if q < 3003 then EADDRINUSE else Listens" new_AuthServer]
    findAvailablePort_first_free [of 0 "\<lambda>q. EADDRINUSE" new_AuthServer]
  by simp

section \<open>Time conflicts\<close>

lemma scan_events_filter:
  "list_all has_start_end evs \<Longrightarrow>
   scan_events parse s e c evs acc =
     Inr (acc @ map (conflict_of c) (filter (event_overlaps parse s e) evs))"
proof (induction evs arbitrary: acc)
  case Nil
  then show ?case by simp
next
  case (Cons ev evs)
  then obtain st en where se: "event_start ev = Some st" "event_end ev = Some en"
    by (auto simp: has_start_end_def)
  from Cons.prems have rest: "list_all has_start_end evs" by simp
  show ?case
    using se Cons.IH [OF rest]
    by (simp add: Let_def event_overlaps_def overlap_test_def start_string_def end_string_def
        conflict_of_def)
qed

lemma scan_calendars_concat:
  "lists_answered api s e cals \<Longrightarrow>
   scan_calendars parse api s e cals acc = Inr (acc @ overlapping_conflicts parse api s e cals)"
proof (induction cals arbitrary: acc)
  case Nil
  then show ?case by (simp add: overlapping_conflicts_def)
next
  case (Cons c cals)
  then obtain items where items: "events_list api c s e = Inr items"
    by (auto simp: lists_answered_def split: sum.splits)
  have l: "listed api s e c = (case items of None \<Rightarrow> [] | Some evs \<Rightarrow> evs)"
    using items by (simp add: listed_def split: option.splits)
  from Cons.prems have wf: "list_all has_start_end (listed api s e c)"
    by (simp add: lists_answered_def)
  have step: "scan_events parse s e c (case items of None \<Rightarrow> [] | Some evs \<Rightarrow> evs) acc
        = Inr (acc @ map (conflict_of c) (filter (event_overlaps parse s e) (listed api s e c)))"
    using scan_events_filter [OF wf, of parse s e c acc] l by simp
  from Cons.prems have rest: "lists_answered api s e cals"
    by (simp add: lists_answered_def)
  show ?case
    using items step Cons.IH [OF rest]
    by (simp add: overlapping_conflicts_def)
qed

lemma overlap_test_touching:
  "\<not> overlap_test a b b d" "\<not> overlap_test a b c a"
  by (auto simp: overlap_test_def date_lt_def split: option.splits)

text \<open>
  C7. When the provider answers the listing of every requested calendar,
  \<open>checkTimeConflicts\<close> returns, calendar after calendar, one conflict for each listed event
  that passes the overlap test \<open>existingStart < queryEnd AND queryStart < existingEnd\<close> and
  for no other event; an event whose end is the query start, or whose start is the query
  end, does not pass the test; and \<open>checkAvailability\<close> answers \<open>available\<close> exactly when
  that list of conflicts is empty.
\<close>

theorem checkTimeConflicts_overlap:
  assumes "lists_answered api startTime endTime calendars"
  shows "checkTimeConflicts parse api startTime endTime calendars
           = Inr (overlapping_conflicts parse api startTime endTime calendars)
       \<and> (\<forall>event. new_Date parse (end_string event) = new_Date parse (Some startTime)
                  \<or> new_Date parse (start_string event) = new_Date parse (Some endTime)
              \<longrightarrow> \<not> event_overlaps parse startTime endTime event)
       \<and> checkAvailability parse api startTime endTime calendars
           = Inr \<lparr>available = (overlapping_conflicts parse api startTime endTime calendars = []),
                  conflicts_found = overlapping_conflicts parse api startTime endTime calendars,
                  checked_calendars = calendars,
                  time_range = (startTime, endTime)\<rparr>"
proof -
  have c: "checkTimeConflicts parse api startTime endTime calendars
           = Inr (overlapping_conflicts parse api startTime endTime calendars)"
    using scan_calendars_concat [OF assms, of parse "[]"] by (simp add: checkTimeConflicts_def)
  have t: "\<forall>event. new_Date parse (end_string event) = new_Date parse (Some startTime)
                  \<or> new_Date parse (start_string event) = new_Date parse (Some endTime)
              \<longrightarrow> \<not> event_overlaps parse startTime endTime event"
    using overlap_test_touching by (auto simp: event_overlaps_def)
  from c have a: "checkAvailability parse api startTime endTime calendars
           = Inr \<lparr>available = (overlapping_conflicts parse api startTime endTime calendars = []),
                  conflicts_found = overlapping_conflicts parse api startTime endTime calendars,
                  checked_calendars = calendars,
                  time_range = (startTime, endTime)\<rparr>"
    by (simp add: checkAvailability_def)
  from c t a show ?thesis by blast
qed

theorem checkTimeConflicts_overlap_witness:
  "lists_answered example_api ''2025-01-01T10:00:00Z'' ''2025-01-01T11:00:00Z'' calendars_default
   \<and> checkTimeConflicts example_parse example_api ''2025-01-01T10:00:00Z'' ''2025-01-01T11:00:00Z''
        calendars_default
      = Inr [\<lparr>conflict_id = Some ''a'', conflict_summary = untitled,
              conflict_start_time = Some ''2025-01-01T09:30:00Z'',
              conflict_end_time = Some ''2025-01-01T10:30:00Z'', calendar = ''primary''\<rparr>]
   \<and> \<not> event_overlaps example_parse ''2025-01-01T10:00:00Z'' ''2025-01-01T11:00:00Z''
         (example_event ''b'' ''2025-01-01T11:00:00Z'' ''2025-01-01T12:00:00Z'')
   \<and> map_sum id available (checkAvailability example_parse example_api ''2025-01-01T10:00:00Z''
        ''2025-01-01T11:00:00Z'' calendars_default) = Inr False"
proof -
  have h: "lists_answered example_api ''2025-01-01T10:00:00Z'' ''2025-01-01T11:00:00Z'' calendars_default"
    by (simp add: lists_answered_def calendars_default_def example_api_def listed_def
        example_event_def has_start_end_def)
  have ov: "overlapping_conflicts example_parse example_api ''2025-01-01T10:00:00Z''
        ''2025-01-01T11:00:00Z'' calendars_default
     = [\<lparr>conflict_id = Some ''a'', conflict_summary = untitled,
              conflict_start_time = Some ''2025-01-01T09:30:00Z'',
              conflict_end_time = Some ''2025-01-01T10:30:00Z'', calendar = ''primary''\<rparr>]"
    by (simp add: overlapping_conflicts_def calendars_default_def example_api_def listed_def
        example_event_def event_overlaps_def overlap_test_def date_lt_def new_Date_def
        start_string_def end_string_def or_str_def truthy_str_def example_parse_def conflict_of_def or_default_def)
  have ex: "new_Date example_parse (start_string (example_event ''b'' ''2025-01-01T11:00:00Z'' ''2025-01-01T12:00:00Z''))
       = new_Date example_parse (Some ''2025-01-01T11:00:00Z'')"
    by (simp add: start_string_def example_event_def or_str_def truthy_str_def)
  show ?thesis
    using h ex checkTimeConflicts_overlap [OF h, of example_parse] ov by simp
qed


section \<open>Partial update\<close>

lemma updates_of_frame:
  "update_summary u = None \<Longrightarrow> summary (updates_of ex u) = summary ex"
  "update_description u = None \<Longrightarrow> description (updates_of ex u) = description ex"
  "update_startTime u = None \<Longrightarrow> event_start (updates_of ex u) = event_start ex"
  "update_endTime u = None \<Longrightarrow> event_end (updates_of ex u) = event_end ex"
  "update_attendees u = None \<Longrightarrow> attendees (updates_of ex u) = attendees ex"
  by (simp_all add: updates_of_def Let_def split: option.splits)

lemma updates_of_other_fields:
  "event_id (updates_of ex u) = event_id ex"
  "conferenceData (updates_of ex u) = conferenceData ex"
  "created (updates_of ex u) = created ex"
  "updated (updates_of ex u) = updated ex"
  "creator (updates_of ex u) = creator ex"
  "organizer (updates_of ex u) = organizer ex"
  "status (updates_of ex u) = status ex"
  "htmlLink (updates_of ex u) = htmlLink ex"
  "location (updates_of ex u) = location ex"
  by (simp_all add: updates_of_def Let_def split: option.splits)

lemma updates_of_has_start_end:
  "has_start_end ex \<Longrightarrow> has_start_end (updates_of ex u)"
  by (auto simp add: updates_of_def Let_def has_start_end_def split: option.splits)

lemma formatMeetingData_Some:
  "conferenceData ev = Some cd \<Longrightarrow> event_start ev = Some st \<Longrightarrow> event_end ev = Some en \<Longrightarrow>
   \<exists>m. formatMeetingData (Some ev) = Inr (Some m)
     \<and> meeting_summary m = or_default (summary ev) untitled
     \<and> meeting_description m = or_default (description ev) []
     \<and> start_time m = or_str (dateTime st) (date st)
     \<and> end_time m = or_str (dateTime en) (date en)
     \<and> meeting_attendees m = map formatAttendee (case attendees ev of None \<Rightarrow> [] | Some as \<Rightarrow> as)"
  by (simp add: formatMeetingData_def)

text \<open>
  C8. \<open>updateMeeting\<close> fetches the existing event and writes back a copy in which only
  the fields given in the call are replaced: for each of summary, description, start time,
  end time and attendees that the call omits, the object written back has the existing
  event's field, and the meeting record returned has the value that the record of the
  existing event has (the provider returning the written user fields).
\<close>

theorem updateMeeting_partial_update:
  assumes get: "events_get api meetingId = Inr existingEvent"
    and upd: "events_update api meetingId (updates_of existingEvent u) = Inr updatedEvent"
    and keeps: "provider_keeps (updates_of existingEvent u) updatedEvent"
    and before: "formatMeetingData (Some existingEvent) = Inr (Some before)"
  shows "\<exists>after. updateMeeting api meetingId u = Inr after
     \<and> (update_summary u = None \<longrightarrow>
          summary (updates_of existingEvent u) = summary existingEvent
          \<and> meeting_summary after = meeting_summary before)
     \<and> (update_description u = None \<longrightarrow>
          description (updates_of existingEvent u) = description existingEvent
          \<and> meeting_description after = meeting_description before)
     \<and> (update_startTime u = None \<longrightarrow>
          event_start (updates_of existingEvent u) = event_start existingEvent
          \<and> start_time after = start_time before)
     \<and> (update_endTime u = None \<longrightarrow>
          event_end (updates_of existingEvent u) = event_end existingEvent
          \<and> end_time after = end_time before)
     \<and> (update_attendees u = None \<longrightarrow>
          attendees (updates_of existingEvent u) = attendees existingEvent
          \<and> meeting_attendees after = meeting_attendees before)"
proof -
  from before obtain cd st en where ex:
    "conferenceData existingEvent = Some cd" "event_start existingEvent = Some st"
    "event_end existingEvent = Some en"
    by (auto simp: formatMeetingData_def split: option.splits)
  from formatMeetingData_Some [OF ex] before have b:
    "meeting_summary before = or_default (summary existingEvent) untitled"
    "meeting_description before = or_default (description existingEvent) []"
    "start_time before = or_str (dateTime st) (date st)"
    "end_time before = or_str (dateTime en) (date en)"
    "meeting_attendees before = map formatAttendee (case attendees existingEvent of None \<Rightarrow> [] | Some as \<Rightarrow> as)"
    by auto
  have "has_start_end (updates_of existingEvent u)"
    using ex updates_of_has_start_end [of existingEvent u] by (simp add: has_start_end_def)
  with keeps obtain cd' st' en' where up:
    "conferenceData updatedEvent = Some cd'" "event_start updatedEvent = Some st'"
    "event_end updatedEvent = Some en'"
    by (auto simp: provider_keeps_def has_start_end_def)
  from formatMeetingData_Some [OF up] obtain after where a:
    "formatMeetingData (Some updatedEvent) = Inr (Some after)"
    "meeting_summary after = or_default (summary updatedEvent) untitled"
    "meeting_description after = or_default (description updatedEvent) []"
    "start_time after = or_str (dateTime st') (date st')"
    "end_time after = or_str (dateTime en') (date en')"
    "meeting_attendees after = map formatAttendee (case attendees updatedEvent of None \<Rightarrow> [] | Some as \<Rightarrow> as)"
    by blast
  have r: "updateMeeting api meetingId u = Inr after"
    using get upd a(1) by (simp add: updateMeeting_def)
  have k: "summary updatedEvent = summary (updates_of existingEvent u)"
    "description updatedEvent = description (updates_of existingEvent u)"
    "event_start updatedEvent = event_start (updates_of existingEvent u)"
    "event_end updatedEvent = event_end (updates_of existingEvent u)"
    "attendees updatedEvent = attendees (updates_of existingEvent u)"
    using keeps by (simp_all add: provider_keeps_def)
  have 1: "update_summary u = None \<longrightarrow>
          summary (updates_of existingEvent u) = summary existingEvent
          \<and> meeting_summary after = meeting_summary before"
    using updates_of_frame(1) [of u existingEvent] a(2) b(1) k(1) by simp
  have 2: "update_description u = None \<longrightarrow>
          description (updates_of existingEvent u) = description existingEvent
          \<and> meeting_description after = meeting_description before"
    using updates_of_frame(2) [of u existingEvent] a(3) b(2) k(2) by simp
  have 3: "update_startTime u = None \<longrightarrow>
          event_start (updates_of existingEvent u) = event_start existingEvent
          \<and> start_time after = start_time before"
    using updates_of_frame(3) [of u existingEvent] a(4) b(3) k(3) up(2) ex(2) by auto
  have 4: "update_endTime u = None \<longrightarrow>
          event_end (updates_of existingEvent u) = event_end existingEvent
          \<and> end_time after = end_time before"
    using updates_of_frame(4) [of u existingEvent] a(5) b(4) k(4) up(3) ex(3) by auto
  have 5: "update_attendees u = None \<longrightarrow>
          attendees (updates_of existingEvent u) = attendees existingEvent
          \<and> meeting_attendees after = meeting_attendees before"
    using updates_of_frame(5) [of u existingEvent] a(6) b(5) k(5) by simp
  show ?thesis by (rule exI [of _ after]) (use r 1 2 3 4 5 in simp)
qed



theorem updateMeeting_partial_update_witness:
  "events_get example_api ''evt1'' = Inr example_meeting_event
   \<and> provider_keeps (updates_of example_meeting_event example_update)
         (updates_of example_meeting_event example_update)
   \<and> map_sum id (\<lambda>m. (meeting_summary m, start_time m, end_time m,
                        map attendee_email (meeting_attendees m)))
         (updateMeeting example_api ''evt1'' example_update)
       = Inr (''New'', Some ''2025-01-01T10:00:00Z'', Some ''2025-01-01T11:00:00Z'',
              [Some ''a@example.com''])"
proof -
  have get: "events_get example_api ''evt1'' = Inr example_meeting_event"
    by (simp add: example_api_def)
  have upd: "events_update example_api ''evt1'' (updates_of example_meeting_event example_update)
      = Inr (updates_of example_meeting_event example_update)"
    by (simp add: example_api_def)
  have keeps: "provider_keeps (updates_of example_meeting_event example_update)
         (updates_of example_meeting_event example_update)"
    by (simp add: provider_keeps_def updates_of_other_fields example_meeting_event_def)
  obtain before where before: "formatMeetingData (Some example_meeting_event) = Inr (Some before)"
    by (simp add: formatMeetingData_def example_meeting_event_def)
  then have b: "start_time before = Some ''2025-01-01T10:00:00Z''"
    "end_time before = Some ''2025-01-01T11:00:00Z''"
    "map attendee_email (meeting_attendees before) = [Some ''a@example.com'']"
    by (auto simp: formatMeetingData_def example_meeting_event_def or_str_def truthy_str_def
        formatAttendee_def)
  from updateMeeting_partial_update [OF get upd keeps before]
  obtain after where a: "updateMeeting example_api ''evt1'' example_update = Inr after"
    "start_time after = start_time before" "end_time after = end_time before"
    "meeting_attendees after = meeting_attendees before"
    by (auto simp: example_update_def)
  have "meeting_summary after = ''New''"
    using a(1) get upd
    by (auto simp: updateMeeting_def formatMeetingData_def updates_of_def Let_def example_update_def
        example_meeting_event_def or_default_def split: option.splits)
  with a b get keeps show ?thesis by simp
qed

section \<open>Conference request identifier\<close>

lemma dec_nonempty: "dec n \<noteq> []"
  by (subst dec.simps) simp

lemma requestId_example:
  "requestId 1735725600000 ''0.4fzyo82mv1'' = ''meet-1735725600000-4fzyo82mv''"
  by (simp add: requestId_def substr_2_9_def dec.simps)

text \<open>
  C9, as the code has it. Every \<open>createMeeting\<close> call asks for a conference with the
  request identifier \<open>meet-\<close>, the timestamp, \<open>-\<close> and up to nine characters of the random
  draw; the identifier is never empty; two calls in the same millisecond have distinct
  identifiers exactly when those characters of their two draws differ.
\<close>

theorem requestId_distinct_iff_suffix:
  "conferenceData (createMeeting_event now_ms random36 su st en de at)
     = Some \<lparr>entryPoints = None, conferenceId = None,
             createRequest_requestId = Some (requestId now_ms random36)\<rparr>
   \<and> requestId now_ms random36 \<noteq> []
   \<and> (requestId now_ms r1 \<noteq> requestId now_ms r2 \<longleftrightarrow> substr_2_9 r1 \<noteq> substr_2_9 r2)"
  by (simp add: createMeeting_event_def requestId_def)

theorem requestId_distinct_iff_suffix_witness:
  "substr_2_9 ''0.4fzyo82mvyr'' \<noteq> substr_2_9 ''0.k2j5x9q1abc''
   \<and> requestId 1735725600000 ''0.4fzyo82mvyr'' \<noteq> requestId 1735725600000 ''0.k2j5x9q1abc''"
proof -
  have h: "substr_2_9 ''0.4fzyo82mvyr'' \<noteq> substr_2_9 ''0.k2j5x9q1abc''"
    by (simp add: substr_2_9_def)
  with requestId_distinct_iff_suffix [of 1735725600000 "''0.4fzyo82mvyr''" "[]" "[]" "[]" "[]" "[]"
      "''0.4fzyo82mvyr''" "''0.k2j5x9q1abc''"]
  show ?thesis by blast
qed

text \<open>
  C9 as stated fails: two calls in the same millisecond whose random draws differ only
  after the ninth base-36 digit send the same request identifier.
\<close>

theorem requestId_same_millisecond_counterexample:
  "''0.4fzyo82mv1'' \<noteq> ''0.4fzyo82mv2''
   \<and> conferenceData (createMeeting_event 1735725600000 ''0.4fzyo82mv1'' ''Sync''
        ''2025-01-01T10:00:00Z'' ''2025-01-01T11:00:00Z'' [] [])
     = conferenceData (createMeeting_event 1735725600000 ''0.4fzyo82mv2'' ''Sync''
        ''2025-01-01T10:00:00Z'' ''2025-01-01T11:00:00Z'' [] [])"
  by (simp add: createMeeting_event_def requestId_def substr_2_9_def)

section \<open>Token validity and refresh\<close>

text \<open>Since the result of \<open>refreshToken\<close> has no key \<open>credentials\<close>, the refresh branch never
  writes: \<open>hasValidTokens\<close> and \<open>initialize\<close> leave the token file as it is, and an expired
  bundle is never reported valid.\<close>

lemma hasValidTokens_never_writes: "snd (hasValidTokens e w) = w"
  by (auto simp: hasValidTokens_def refreshToken_def library_result_def saveTokens_def Let_def
      split: json_file.splits sum.splits)

lemma initialize_never_writes: "snd (initialize e w) = w"
  by (auto simp: initialize_def refreshToken_def library_result_def
      split: json_file.splits sum.splits option.splits)

lemma hasValidTokens_expired:
  "token_file w = Json t \<Longrightarrow> expired e t \<Longrightarrow> hasValidTokens e w = (False, w)"
  by (auto simp: hasValidTokens_def refreshToken_def library_result_def saveTokens_def Let_def
      split: sum.splits)

text \<open>
  C6, as the code has it. \<open>hasValidTokens\<close> returns false for every bundle in which
  \<open>access_token\<close> or \<open>refresh_token\<close> is missing; it returns true only when the token file
  holds a bundle whose two token fields are present and whose \<open>expiry_date\<close> is absent, or
  zero, or not earlier than the current time, or whose refresh the provider has just
  accepted; and it does return true when both token fields are present and not empty and
  \<open>expiry_date\<close> is absent, zero, or not earlier than the current time.
\<close>

theorem hasValidTokens_only_when:
  "(token_file w = Json t \<and> (access_token t = None \<or> refresh_token t = None)
        \<longrightarrow> \<not> fst (hasValidTokens e w))
   \<and> (fst (hasValidTokens e w) \<longrightarrow>
        (\<exists>t. token_file w = Json t \<and> access_token t \<noteq> None \<and> refresh_token t \<noteq> None
           \<and> (expiry_date t = None \<or> expiry_date t = Some 0
              \<or> (\<exists>x. expiry_date t = Some x \<and> Date_now e \<le> x)
              \<or> (\<exists>c t'. loadCredentials e = Inr c
                    \<and> provider_refresh e (refresh_token t) = Inr t'))))
   \<and> (token_file w = Json t
        \<and> (\<exists>a. access_token t = Some a \<and> a \<noteq> []) \<and> (\<exists>r. refresh_token t = Some r \<and> r \<noteq> [])
        \<and> (expiry_date t = None \<or> expiry_date t = Some 0
           \<or> (\<exists>x. expiry_date t = Some x \<and> Date_now e \<le> x))
        \<longrightarrow> fst (hasValidTokens e w))"
proof (intro conjI impI)
  assume "token_file w = Json t \<and> (access_token t = None \<or> refresh_token t = None)"
  then show "\<not> fst (hasValidTokens e w)"
    by (auto simp: hasValidTokens_def truthy_str_def split: option.splits)
next
  assume v: "fst (hasValidTokens e w)"
  then obtain t where tf: "token_file w = Json t"
    by (cases "token_file w") (simp_all add: hasValidTokens_def)
  from v tf have tr: "truthy_str (access_token t)" "truthy_str (refresh_token t)"
    by (auto simp: hasValidTokens_def split: if_splits)
  from v tf have "\<not> expired e t"
    using hasValidTokens_expired [of w t e] by auto
  then have "expiry_date t = None \<or> expiry_date t = Some 0
      \<or> (\<exists>x. expiry_date t = Some x \<and> Date_now e \<le> x)"
    by (auto simp: expired_def split: option.splits)
  with tf tr show "\<exists>t. token_file w = Json t \<and> access_token t \<noteq> None \<and> refresh_token t \<noteq> None
           \<and> (expiry_date t = None \<or> expiry_date t = Some 0
              \<or> (\<exists>x. expiry_date t = Some x \<and> Date_now e \<le> x)
              \<or> (\<exists>c t'. loadCredentials e = Inr c
                    \<and> provider_refresh e (refresh_token t) = Inr t'))"
    by (auto simp: truthy_str_def split: option.splits)
next
  assume h: "token_file w = Json t
        \<and> (\<exists>a. access_token t = Some a \<and> a \<noteq> []) \<and> (\<exists>r. refresh_token t = Some r \<and> r \<noteq> [])
        \<and> (expiry_date t = None \<or> expiry_date t = Some 0
           \<or> (\<exists>x. expiry_date t = Some x \<and> Date_now e \<le> x))"
  then have "\<not> expired e t" by (auto simp: expired_def)
  with h show "fst (hasValidTokens e w)"
    by (auto simp: hasValidTokens_def truthy_str_def)
qed

theorem hasValidTokens_only_when_witness:
  "fst (hasValidTokens example_env (empty_world\<lparr>token_file := Json example_tokens\<rparr>))
   \<and> \<not> fst (hasValidTokens example_env
          (empty_world\<lparr>token_file := Json (example_tokens\<lparr>refresh_token := None\<rparr>)\<rparr>))
   \<and> (\<exists>x. expiry_date example_tokens = Some x \<and> Date_now example_env \<le> x)"
proof -
  let ?w = "empty_world\<lparr>token_file := Json example_tokens\<rparr>"
  have a: "token_file ?w = Json example_tokens
        \<and> (\<exists>a. access_token example_tokens = Some a \<and> a \<noteq> [])
        \<and> (\<exists>r. refresh_token example_tokens = Some r \<and> r \<noteq> [])
        \<and> (expiry_date example_tokens = None \<or> expiry_date example_tokens = Some 0
           \<or> (\<exists>x. expiry_date example_tokens = Some x \<and> Date_now example_env \<le> x))"
    by (simp add: example_tokens_def example_env_def)
  from hasValidTokens_only_when [of ?w example_tokens example_env] a
  have 1: "fst (hasValidTokens example_env ?w)" by blast
  have nr: "\<not> (\<exists>c t'. loadCredentials example_env = Inr c
                    \<and> provider_refresh example_env (refresh_token example_tokens) = Inr t')"
    by (simp add: example_env_def)
  have ne: "expiry_date example_tokens \<noteq> None" "expiry_date example_tokens \<noteq> Some 0"
    by (simp_all add: example_tokens_def)
  from hasValidTokens_only_when [of ?w example_tokens example_env] 1
  obtain t where t: "token_file ?w = Json t"
    "expiry_date t = None \<or> expiry_date t = Some 0
       \<or> (\<exists>x. expiry_date t = Some x \<and> Date_now example_env \<le> x)
       \<or> (\<exists>c t'. loadCredentials example_env = Inr c
             \<and> provider_refresh example_env (refresh_token t) = Inr t')"
    by blast
  from t(1) have "t = example_tokens" by simp
  with t(2) nr ne have 3: "\<exists>x. expiry_date example_tokens = Some x \<and> Date_now example_env \<le> x"
    by auto
  have b: "token_file (empty_world\<lparr>token_file := Json (example_tokens\<lparr>refresh_token := None\<rparr>)\<rparr>)
      = Json (example_tokens\<lparr>refresh_token := None\<rparr>)
      \<and> (access_token (example_tokens\<lparr>refresh_token := None\<rparr>) = None
          \<or> refresh_token (example_tokens\<lparr>refresh_token := None\<rparr>) = None)"
    by simp
  from hasValidTokens_only_when [of
      "empty_world\<lparr>token_file := Json (example_tokens\<lparr>refresh_token := None\<rparr>)\<rparr>"
      "example_tokens\<lparr>refresh_token := None\<rparr>" example_env] b
  have 2: "\<not> fst (hasValidTokens example_env
          (empty_world\<lparr>token_file := Json (example_tokens\<lparr>refresh_token := None\<rparr>)\<rparr>))"
    by blast
  from 1 2 3 show ?thesis by simp
qed

text \<open>
  C6 as stated fails: a bundle with both tokens and \<open>expiry_date = 0\<close> is reported valid,
  although its expiry date is present and earlier than the current time and no refresh
  takes place (the provider of the example refuses every refresh, and the file is not
  written).
\<close>

theorem hasValidTokens_zero_expiry_counterexample:
  "hasValidTokens example_env (empty_world\<lparr>token_file := Json (example_tokens\<lparr>expiry_date := Some 0\<rparr>)\<rparr>)
     = (True, empty_world\<lparr>token_file := Json (example_tokens\<lparr>expiry_date := Some 0\<rparr>)\<rparr>)
   \<and> expiry_date (example_tokens\<lparr>expiry_date := Some 0\<rparr>) = Some 0
   \<and> 0 < Date_now example_env"
  by (simp add: hasValidTokens_def example_tokens_def truthy_str_def expired_def example_env_def)

text \<open>
  C5 on the code: the token file holds a bundle that expired at 09:00:00Z, the clock is at
  10:00:00Z, the provider accepts the refresh and answers with a bundle that expires at
  11:00:00Z, the token path is writable. The code reads the key \<open>credentials\<close> of the result,
  which is undefined, and the write is rejected: \<open>hasValidTokens\<close> returns false,
  \<open>initialize\<close> throws, and the token file still holds the expired bundle.
\<close>

theorem refreshed_bundle_not_persisted:
  "provider_refresh refreshing_env (Some ''1//0g'') = Inr example_tokens
   \<and> expiry_date example_tokens = Some 1735729200000
   \<and> Date_now refreshing_env = 1735725600000
   \<and> fs_writable refreshing_env
   \<and> hasValidTokens refreshing_env expired_world = (False, expired_world)
   \<and> initialize refreshing_env expired_world = (Inl NoValidToken, expired_world)
   \<and> token_file expired_world = Json (example_tokens\<lparr>expiry_date := Some 1735722000000\<rparr>)"
  by (simp add: refreshing_env_def example_env_def example_tokens_def expired_world_def
      hasValidTokens_def initialize_def loadCredentials_def refreshToken_def library_result_def
      saveTokens_def truthy_str_def expired_def)

theorem refreshed_bundle_not_persisted_witness:
  "\<not> fst (hasValidTokens refreshing_env expired_world)
   \<and> token_file (snd (hasValidTokens refreshing_env expired_world))
       = Json (example_tokens\<lparr>expiry_date := Some 1735722000000\<rparr>)
   \<and> fst (initialize refreshing_env expired_world) = Inl NoValidToken"
  using refreshed_bundle_not_persisted by simp

text \<open>When the provider refuses the refresh, nothing is written either.\<close>

lemma refused_refresh_keeps_file:
  "hasValidTokens example_env expired_world = (False, expired_world)
   \<and> initialize example_env expired_world = (Inl NoValidToken, expired_world)"
  by (simp add: example_env_def example_tokens_def expired_world_def
      hasValidTokens_def initialize_def loadCredentials_def refreshToken_def
      truthy_str_def expired_def)

section \<open>The wait for the callback\<close>

lemma step_Request_flag:
  "authCompletedSuccessfully (srv (step e (Request req) f))
     = (case callback_result e req of None \<Rightarrow> authCompletedSuccessfully (srv f) | Some v \<Rightarrow> v)"
  by (auto simp: step_def handle_request_def callback_result_def successful_callback_def
      failed_exchange_def carries_code_def exchange_saved_def getToken_def library_result_def
      saveTokens_def truthy_str_def split: option.splits sum.splits)

lemma step_Request_timers:
  "interval_set (step e (Request req) f) = interval_set f"
  "timeout_set (step e (Request req) f) = timeout_set f"
  "resolved (step e (Request req) f) = resolved f"
  "server (srv (step e (Request req) f)) = server (srv f)"
  "activeConnections (srv (step e (Request req) f)) = activeConnections (srv f)"
  by (auto simp: step_def handle_request_def saveTokens_def split: option.splits sum.splits prod.splits)

lemma step_resolved_stays:
  "resolved f = Some r \<Longrightarrow> resolved (step e ev f) = Some r"
  by (cases ev) (auto simp: step_def resolve_def Let_def step_Request_timers split: prod.splits)

lemma run_resolved_stays:
  "resolved f = Some r \<Longrightarrow> resolved (run e evs f) = Some r"
  by (induction evs arbitrary: f) (simp_all add: step_resolved_stays)

lemma step_timers_off:
  "\<not> interval_set f \<Longrightarrow> \<not> timeout_set f \<Longrightarrow>
   \<not> interval_set (step e ev f) \<and> \<not> timeout_set (step e ev f) \<and> resolved (step e ev f) = resolved f"
  by (cases ev) (auto simp: step_def step_Request_timers split: prod.splits)

lemma run_timers_off:
  "\<not> interval_set f \<Longrightarrow> \<not> timeout_set f \<Longrightarrow> resolved (run e evs f) = resolved f"
proof (induction evs arbitrary: f)
  case Nil
  then show ?case by simp
next
  case (Cons ev evs)
  from step_timers_off [OF Cons.prems, of e ev] Cons.IH [of "step e ev f"]
  show ?case by simp
qed

lemma run_poll:
  "interval_set f \<Longrightarrow> timeout_set f \<Longrightarrow> resolved f = None \<Longrightarrow>
   outcome_of (run e evs f) = poll e evs (authCompletedSuccessfully (srv f))"
proof (induction evs arbitrary: f)
  case Nil
  then show ?case by (simp add: outcome_of_def)
next
  case (Cons ev evs)
  show ?case
  proof (cases ev)
    case Tick
    show ?thesis
    proof (cases "authCompletedSuccessfully (srv f)")
      case True
      with Cons.prems have "resolved (step e Tick f) = Some True"
        by (simp add: step_def resolve_def)
      then have "resolved (run e evs (step e Tick f)) = Some True"
        by (rule run_resolved_stays)
      with True Tick show ?thesis by (simp add: outcome_of_def)
    next
      case False
      with Cons.prems have "step e Tick f = f" by (simp add: step_def)
      with False Tick Cons.IH [OF Cons.prems] show ?thesis by simp
    qed
  next
    case Timeout
    show ?thesis
    proof (cases "authCompletedSuccessfully (srv f)")
      case True
      with Cons.prems have off: "\<not> interval_set (step e Timeout f)" "\<not> timeout_set (step e Timeout f)"
        and res: "resolved (step e Timeout f) = None"
        by (simp_all add: step_def Let_def)
      from run_timers_off [OF off, of e evs] res
      have "resolved (run e evs (step e Timeout f)) = None" by simp
      with True Timeout show ?thesis by (simp add: outcome_of_def)
    next
      case False
      with Cons.prems have "resolved (step e Timeout f) = Some False"
        by (simp add: step_def Let_def resolve_def)
      then have "resolved (run e evs (step e Timeout f)) = Some False"
        by (rule run_resolved_stays)
      with False Timeout show ?thesis by (simp add: outcome_of_def)
    qed
  next
    case (Request req)
    from Cons.prems have p: "interval_set (step e (Request req) f)" "timeout_set (step e (Request req) f)"
      "resolved (step e (Request req) f) = None"
      by (simp_all add: step_Request_timers)
    from Cons.IH [OF p] Request show ?thesis
      by (simp add: step_Request_flag)
  next
    case (Connection k)
    from Cons.prems have p: "interval_set (step e (Connection k) f)" "timeout_set (step e (Connection k) f)"
      "resolved (step e (Connection k) f) = None"
      by (simp_all add: step_def)
    from Cons.IH [OF p] Connection show ?thesis
      by (simp add: step_def)
  next
    case (SocketClose k)
    from Cons.prems have p: "interval_set (step e (SocketClose k) f)" "timeout_set (step e (SocketClose k) f)"
      "resolved (step e (SocketClose k) f) = None"
      by (simp_all add: step_def)
    from Cons.IH [OF p] SocketClose show ?thesis
      by (simp add: step_def)
  qed
qed

lemma poll_not_Threw: "poll e evs b \<noteq> Threw err"
  by (induction e evs b rule: poll.induct) auto

lemma poll_True_iff:
  "poll e evs b = Returned True \<longleftrightarrow>
     (\<exists>pre post. evs = pre @ Tick # post \<and> Timeout \<notin> set pre \<and> flag_after e pre b)"
proof (induction e evs b rule: poll.induct)
  case (1 e b)
  then show ?case by simp
next
  case (2 e evs b)
  show ?case
  proof (cases b)
    case True
    have "Tick # evs = [] @ Tick # evs \<and> Timeout \<notin> set [] \<and> flag_after e [] b"
      using True by simp
    then have "\<exists>pre post. Tick # evs = pre @ Tick # post \<and> Timeout \<notin> set pre \<and> flag_after e pre b"
      by blast
    with True show ?thesis by simp
  next
    case False
    have "(\<exists>pre post. Tick # evs = pre @ Tick # post \<and> Timeout \<notin> set pre \<and> flag_after e pre b)
        \<longleftrightarrow> (\<exists>pre post. evs = pre @ Tick # post \<and> Timeout \<notin> set pre \<and> flag_after e pre b)"
      (is "?L \<longleftrightarrow> ?R")
    proof
      assume ?L
      then obtain pre post where h: "Tick # evs = pre @ Tick # post" "Timeout \<notin> set pre" "flag_after e pre b"
        by blast
      from h(3) False have "pre \<noteq> []" by auto
      then obtain pre' where p: "pre = Tick # pre'" using h(1) by (cases pre) auto
      with h have "evs = pre' @ Tick # post" "Timeout \<notin> set pre'" "flag_after e pre' b" by auto
      then show ?R by blast
    next
      assume ?R
      then obtain pre post where h: "evs = pre @ Tick # post" "Timeout \<notin> set pre" "flag_after e pre b"
        by blast
      then have "Tick # evs = (Tick # pre) @ Tick # post" "Timeout \<notin> set (Tick # pre)"
        "flag_after e (Tick # pre) b" by auto
      then show ?L by blast
    qed
    with False 2 show ?thesis by simp
  qed
next
  case (3 e evs b)
  have "\<not> (\<exists>pre post. Timeout # evs = pre @ Tick # post \<and> Timeout \<notin> set pre \<and> flag_after e pre b)"
  proof
    assume "\<exists>pre post. Timeout # evs = pre @ Tick # post \<and> Timeout \<notin> set pre \<and> flag_after e pre b"
    then obtain pre post where h: "Timeout # evs = pre @ Tick # post" "Timeout \<notin> set pre" by blast
    then show False by (cases pre) auto
  qed
  then show ?case by (cases b) simp_all
next
  case (4 e req evs b)
  let ?b = "case callback_result e req of None \<Rightarrow> b | Some v \<Rightarrow> v"
  have "(\<exists>pre post. Request req # evs = pre @ Tick # post \<and> Timeout \<notin> set pre \<and> flag_after e pre b)
        \<longleftrightarrow> (\<exists>pre post. evs = pre @ Tick # post \<and> Timeout \<notin> set pre \<and> flag_after e pre ?b)"
    (is "?L \<longleftrightarrow> ?R")
  proof
    assume ?L
    then obtain pre post where h: "Request req # evs = pre @ Tick # post" "Timeout \<notin> set pre"
      "flag_after e pre b" by blast
    then obtain pre' where p: "pre = Request req # pre'" by (cases pre) auto
    with h have "evs = pre' @ Tick # post" "Timeout \<notin> set pre'" "flag_after e pre' ?b" by auto
    then show ?R by blast
  next
    assume ?R
    then obtain pre post where h: "evs = pre @ Tick # post" "Timeout \<notin> set pre" "flag_after e pre ?b"
      by blast
    then have "Request req # evs = (Request req # pre) @ Tick # post" "Timeout \<notin> set (Request req # pre)"
      "flag_after e (Request req # pre) b" by auto
    then show ?L by blast
  qed
  with 4 show ?case by simp
next
  case (5 e k evs b)
  have "(\<exists>pre post. Connection k # evs = pre @ Tick # post \<and> Timeout \<notin> set pre \<and> flag_after e pre b)
        \<longleftrightarrow> (\<exists>pre post. evs = pre @ Tick # post \<and> Timeout \<notin> set pre \<and> flag_after e pre b)"
    (is "?L \<longleftrightarrow> ?R")
  proof
    assume ?L
    then obtain pre post where h: "Connection k # evs = pre @ Tick # post" "Timeout \<notin> set pre"
      "flag_after e pre b" by blast
    then obtain pre' where p: "pre = Connection k # pre'" by (cases pre) auto
    with h have "evs = pre' @ Tick # post" "Timeout \<notin> set pre'" "flag_after e pre' b" by auto
    then show ?R by blast
  next
    assume ?R
    then obtain pre post where h: "evs = pre @ Tick # post" "Timeout \<notin> set pre" "flag_after e pre b"
      by blast
    then have "Connection k # evs = (Connection k # pre) @ Tick # post"
      "Timeout \<notin> set (Connection k # pre)" "flag_after e (Connection k # pre) b" by auto
    then show ?L by blast
  qed
  with 5 show ?case by simp
next
  case (6 e k evs b)
  have "(\<exists>pre post. SocketClose k # evs = pre @ Tick # post \<and> Timeout \<notin> set pre \<and> flag_after e pre b)
        \<longleftrightarrow> (\<exists>pre post. evs = pre @ Tick # post \<and> Timeout \<notin> set pre \<and> flag_after e pre b)"
    (is "?L \<longleftrightarrow> ?R")
  proof
    assume ?L
    then obtain pre post where h: "SocketClose k # evs = pre @ Tick # post" "Timeout \<notin> set pre"
      "flag_after e pre b" by blast
    then obtain pre' where p: "pre = SocketClose k # pre'" by (cases pre) auto
    with h have "evs = pre' @ Tick # post" "Timeout \<notin> set pre'" "flag_after e pre' b" by auto
    then show ?R by blast
  next
    assume ?R
    then obtain pre post where h: "evs = pre @ Tick # post" "Timeout \<notin> set pre" "flag_after e pre b"
      by blast
    then have "SocketClose k # evs = (SocketClose k # pre) @ Tick # post"
      "Timeout \<notin> set (SocketClose k # pre)" "flag_after e (SocketClose k # pre) b" by auto
    then show ?L by blast
  qed
  with 6 show ?case by simp
qed

lemma poll_timeout_False:
  "(\<forall>p q. pre = p @ q \<longrightarrow> \<not> flag_after e p b) \<Longrightarrow> poll e (pre @ Timeout # post) b = Returned False"
proof (induction e pre b rule: poll.induct)
  case (1 e b)
  then show ?case by simp
next
  case (2 e evs b)
  from "2.prems" have nb: "\<not> b" by (metis append_Nil flag_after.simps(1))
  have "\<forall>p q. evs = p @ q \<longrightarrow> \<not> flag_after e p b"
  proof (intro allI impI)
    fix p q assume "evs = p @ q"
    then have "Tick # evs = (Tick # p) @ q" by simp
    with "2.prems" have "\<not> flag_after e (Tick # p) b" by blast
    then show "\<not> flag_after e p b" by simp
  qed
  with 2 nb show ?case by simp
next
  case (3 e evs b)
  from "3.prems" have nb: "\<not> b" by (metis append_Nil flag_after.simps(1))
  then show ?case by simp
next
  case (4 e req evs b)
  let ?b = "case callback_result e req of None \<Rightarrow> b | Some v \<Rightarrow> v"
  have "\<forall>p q. evs = p @ q \<longrightarrow> \<not> flag_after e p ?b"
  proof (intro allI impI)
    fix p q assume "evs = p @ q"
    then have "Request req # evs = (Request req # p) @ q" by simp
    with "4.prems" have "\<not> flag_after e (Request req # p) b" by blast
    then show "\<not> flag_after e p ?b" by simp
  qed
  with 4 show ?case by simp
next
  case (5 e k evs b)
  have "\<forall>p q. evs = p @ q \<longrightarrow> \<not> flag_after e p b"
  proof (intro allI impI)
    fix p q assume "evs = p @ q"
    then have "Connection k # evs = (Connection k # p) @ q" by simp
    with "5.prems" have "\<not> flag_after e (Connection k # p) b" by blast
    then show "\<not> flag_after e p b" by simp
  qed
  with 5 show ?case by simp
next
  case (6 e k evs b)
  have "\<forall>p q. evs = p @ q \<longrightarrow> \<not> flag_after e p b"
  proof (intro allI impI)
    fix p q assume "evs = p @ q"
    then have "SocketClose k # evs = (SocketClose k # p) @ q" by simp
    with "6.prems" have "\<not> flag_after e (SocketClose k # p) b" by blast
    then show "\<not> flag_after e p b" by simp
  qed
  with 6 show ?case by simp
qed

lemma findAvailablePort_from_frame:
  "findAvailablePort_from listen a b s = (r, s') \<Longrightarrow>
   authCompletedSuccessfully s' = authCompletedSuccessfully s
   \<and> activeConnections s' = activeConnections s
   \<and> (case r of Inl err \<Rightarrow> server s' = server s | Inr p \<Rightarrow> server s' = Some p)"
proof (induction listen a b s rule: findAvailablePort_from.induct)
  case (1 listen port endPort s)
  show ?case
  proof (cases "port \<le> endPort")
    case False
    with "1.prems" show ?thesis
      by (auto simp: findAvailablePort_from.simps [of listen port])
  next
    case le: True
    show ?thesis
    proof (cases "listen port")
      case Listens
      with le "1.prems" show ?thesis
        by (auto simp: findAvailablePort_from.simps [of listen port])
    next
      case EADDRINUSE
      with le "1.prems" have "findAvailablePort_from listen (Suc port) endPort s = (r, s')"
        by (simp add: findAvailablePort_from.simps [of listen port])
      with "1.IH" [OF le EADDRINUSE] show ?thesis by simp
    next
      case OtherListenError
      with le "1.prems" show ?thesis
        by (auto simp: findAvailablePort_from.simps [of listen port])
    qed
  qed
qed

lemma start_fst:
  "fst (start e openBrowser evs (s, w)) =
     (if fst (hasValidTokens e w) then Returned True
      else (case loadCredentials e of
              Inl err \<Rightarrow> Returned False
            | Inr c \<Rightarrow>
                (case fst (findAvailablePort (port_listen e) s) of
                   Inl err \<Rightarrow> Returned False
                 | Inr p \<Rightarrow> poll e evs (authCompletedSuccessfully s))))"
proof (cases "hasValidTokens e w")
  case (Pair v w1)
  show ?thesis
  proof (cases v)
    case True
    with Pair show ?thesis by (simp add: start_def start_try_def)
  next
    case nv: False
    show ?thesis
    proof (cases "loadCredentials e")
      case (Inl err)
      with Pair nv show ?thesis by (simp add: start_def start_try_def)
    next
      case (Inr c)
      show ?thesis
      proof (cases "findAvailablePort (port_listen e) s")
        case fp: (Pair r s1)
        show ?thesis
        proof (cases r)
          case (Inl err)
          with Pair nv Inr fp show ?thesis by (simp add: start_def start_try_def)
        next
          case port: (Inr p)
          from fp have "authCompletedSuccessfully s1 = authCompletedSuccessfully s"
            using findAvailablePort_from_frame [of "port_listen e" startPort_default endPort_default s r s1]
            by (simp add: findAvailablePort_def)
          then have po: "outcome_of (run e evs
                \<lparr>interval_set = True, timeout_set = True, resolved = None, responses = [],
                 srv = s1, wld = open_browser e openBrowser w1\<rparr>)
              = poll e evs (authCompletedSuccessfully s)"
            using run_poll [of "\<lparr>interval_set = True, timeout_set = True, resolved = None,
                 responses = [], srv = s1, wld = open_browser e openBrowser w1\<rparr>" e evs]
            by simp
          have "fst (start_try e openBrowser evs (s, w)) = poll e evs (authCompletedSuccessfully s)"
            using Pair nv Inr fp port po by (simp add: start_try_def Let_def)
          moreover have "fst (start e openBrowser evs (s, w))
              = (case fst (start_try e openBrowser evs (s, w)) of
                   Threw err \<Rightarrow> Returned False | out \<Rightarrow> out)"
            by (simp add: start_def split: prod.splits outcome.splits)
          ultimately have "fst (start e openBrowser evs (s, w)) = poll e evs (authCompletedSuccessfully s)"
            using poll_not_Threw [of e evs "authCompletedSuccessfully s"]
            by (simp split: outcome.splits)
          with Pair nv Inr port fp show ?thesis by simp
        qed
      qed
    qed
  qed
qed

lemma start_try_throws:
  "\<not> fst (hasValidTokens e w) \<Longrightarrow> loadCredentials e = Inl err \<Longrightarrow>
   fst (start_try e openBrowser evs (s, w)) = Threw err"
  by (cases "hasValidTokens e w") (simp add: start_try_def)

lemma run_flag:
  "authCompletedSuccessfully (srv (run e evs f)) = flag_after e evs (authCompletedSuccessfully (srv f))"
proof (induction evs arbitrary: f)
  case Nil
  then show ?case by simp
next
  case (Cons ev evs)
  show ?case
  proof (cases ev)
    case (Request req)
    with Cons show ?thesis by (simp add: step_Request_flag)
  qed (use Cons in \<open>auto simp: step_def resolve_def Let_def split: option.splits\<close>)
qed

lemma poll_skip:
  "callback_result e req = None \<Longrightarrow>
   poll e (pre @ Request req # post) b = poll e (pre @ post) b"
  by (induction e pre b rule: poll.induct) simp_all

lemma error_callback_result:
  "pathname req = ''/oauth2callback'' \<Longrightarrow> query_error req = Some err \<Longrightarrow> err \<noteq> [] \<Longrightarrow>
   callback_result e req = None"
  by (simp add: callback_result_def successful_callback_def failed_exchange_def carries_code_def
      truthy_str_def)

section \<open>The callback handler\<close>

text \<open>
  C4, as the code has it. For a request on \<open>/oauth2callback\<close> whose \<open>error\<close> parameter is
  not empty the handler answers 400 with the failure page and changes nothing: the success
  flag keeps its value, the token file is not written, the timers and the promise of the
  flow are as before, and \<open>start\<close> ends as it would without that request.
\<close>

theorem callback_error_keeps_session:
  "pathname req = ''/oauth2callback'' \<and> query_error req = Some err \<and> err \<noteq> [] \<longrightarrow>
     handle_request e req (s, w) = ((400, AuthorizationFailedPage err), s, w)
     \<and> step e (Request req) f = f\<lparr>responses := responses f @ [(400, AuthorizationFailedPage err)]\<rparr>
     \<and> fst (start e openBrowser (pre @ Request req # post) (s, w))
         = fst (start e openBrowser (pre @ post) (s, w))"
proof (intro impI conjI)
  assume h: "pathname req = ''/oauth2callback'' \<and> query_error req = Some err \<and> err \<noteq> []"
  then show "handle_request e req (s, w) = ((400, AuthorizationFailedPage err), s, w)"
    by (simp add: handle_request_def truthy_str_def)
  then show "step e (Request req) f
      = f\<lparr>responses := responses f @ [(400, AuthorizationFailedPage err)]\<rparr>"
    using h by (simp add: handle_request_def step_def truthy_str_def)
  from h have "callback_result e req = None"
    by (simp add: error_callback_result)
  then show "fst (start e openBrowser (pre @ Request req # post) (s, w))
         = fst (start e openBrowser (pre @ post) (s, w))"
    by (simp add: start_fst poll_skip split: sum.splits)
qed

theorem callback_error_keeps_session_witness:
  "handle_request example_env (callback None (Some ''access_denied'')) (new_AuthServer, empty_world)
     = ((400, AuthorizationFailedPage ''access_denied''), new_AuthServer, empty_world)
   \<and> fst (start example_env True [Tick, Request (callback None (Some ''access_denied'')), Timeout]
          (new_AuthServer, empty_world))
     = fst (start example_env True [Tick, Timeout] (new_AuthServer, empty_world))"
  using callback_error_keeps_session [of "callback None (Some ''access_denied'')" "''access_denied''"
      example_env new_AuthServer empty_world _ True "[Tick]" "[Timeout]"]
  by (simp add: callback_def)

text \<open>
  C4 as stated fails twice: a callback that carries an empty \<open>error\<close> parameter next to a
  code is treated as a success and sets the flag; and a callback with an error does not
  mark the session failed, since a later callback with a valid code still makes \<open>start\<close>
  return true.
\<close>

theorem callback_error_counterexample:
  "handle_request example_env (callback (Some ''good'') (Some [])) (new_AuthServer, empty_world)
     = ((200, SuccessPage), new_AuthServer\<lparr>authCompletedSuccessfully := True\<rparr>,
        empty_world\<lparr>token_file := Json example_tokens, writeFile_calls := 1\<rparr>)
   \<and> fst (start example_env True
        [Request (callback None (Some ''access_denied'')), Request (callback (Some ''good'') None), Tick]
        (new_AuthServer, empty_world)) = Returned True"
  by (simp add: handle_request_def callback_def truthy_str_def example_env_def saveTokens_def
      getToken_def library_result_def
      empty_world_def start_fst hasValidTokens_def loadCredentials_def
      findAvailablePort_def startPort_default_def endPort_default_def
      findAvailablePort_from.simps [of _ 3000]
      callback_result_def successful_callback_def failed_exchange_def carries_code_def
      exchange_saved_def new_AuthServer_def)

section \<open>The outcome of start\<close>

lemma successful_callback_handled:
  "successful_callback e req \<longleftrightarrow>
     (\<exists>t. handle_request e req (s, w)
            = ((200, SuccessPage), s\<lparr>authCompletedSuccessfully := True\<rparr>,
               w\<lparr>token_file := Json t, writeFile_calls := Suc (writeFile_calls w)\<rparr>))"
  by (auto simp: successful_callback_def carries_code_def exchange_saved_def handle_request_def
      getToken_def library_result_def saveTokens_def truthy_str_def
      split: option.splits sum.splits if_splits)











text \<open>A callback that succeeds after the last tick and before the timeout leaves the promise
  of \<open>start\<close> unsettled: the timeout clears the interval and does not resolve.\<close>

lemma start_pending_example:
  "fst (start example_env True [Request (callback (Some ''good'') None), Timeout, Tick]
         (new_AuthServer, empty_world)) = Pending"
  by (simp add: start_fst hasValidTokens_def empty_world_def loadCredentials_def example_env_def
      findAvailablePort_def startPort_default_def endPort_default_def
      findAvailablePort_from.simps [of _ 3000]
      callback_result_def successful_callback_def failed_exchange_def carries_code_def
      exchange_saved_def callback_def truthy_str_def new_AuthServer_def)

section \<open>Shutdown of the listener\<close>

lemma step_keeps_server: "server (srv (step e ev f)) = server (srv f)"
  by (cases ev)
    (auto simp: step_def resolve_def Let_def handle_request_def saveTokens_def
      split: option.splits sum.splits prod.splits)

lemma run_keeps_server: "server (srv (run e evs f)) = server (srv f)"
  by (induction evs arbitrary: f) (simp_all add: step_keeps_server)

text \<open>Once a port is bound, \<open>start\<close> ends with the listener still on that port, whatever
  the callbacks are.\<close>

lemma start_keeps_listener:
  assumes "\<not> fst (hasValidTokens e w)" "loadCredentials e = Inr c"
    and "fst (findAvailablePort (port_listen e) s) = Inr p"
  shows "server (fst (snd (start e openBrowser evs (s, w)))) = Some p"
proof -
  obtain w1 where v: "hasValidTokens e w = (False, w1)"
    using assms(1) by (cases "hasValidTokens e w") auto
  obtain s1 where fp: "findAvailablePort (port_listen e) s = (Inr p, s1)"
    using assms(3) by (cases "findAvailablePort (port_listen e) s") auto
  then have "server s1 = Some p"
    using findAvailablePort_from_frame [of "port_listen e" startPort_default endPort_default s "Inr p" s1]
    by (simp add: findAvailablePort_def)
  with v fp assms(2) show ?thesis
    by (simp add: start_def start_try_def Let_def run_keeps_server outcome_of_def
        split: option.splits)
qed

text \<open>\<open>stop\<close>, and \<open>cleanup\<close> through it, do destroy the tracked sockets and drop the
  listener, within 2000 ms.\<close>

lemma stop_closes:
  "server s = Some p \<Longrightarrow>
   fst (fst (stop close_after s)) = activeConnections s
   \<and> snd (fst (stop close_after s)) \<le> 2000
   \<and> snd (stop close_after s) = s\<lparr>activeConnections := {}, server := None\<rparr>"
  by (simp add: stop_def split: option.splits)

lemma cleanup_closes:
  "cleanup close_after (Some s) = Some s' \<Longrightarrow> server s' = None \<and> (server s \<noteq> None \<longrightarrow> activeConnections s' = {})"
  by (auto simp: cleanup_def stop_def split: option.splits)

text \<open>
  C2 on the code: the flow completes with success (the callback arrives on socket 1, the
  next tick resolves \<open>start\<close> to true, \<open>initialize\<close> succeeds), and afterwards the listener
  is still bound to port 3000 and socket 1 is still tracked and open: neither \<open>start\<close> nor
  \<open>initializeAuthentication\<close> calls \<open>stop\<close>.
\<close>

theorem initializeAuthentication_leaves_listener_open:
  "initializeAuthentication example_env
     [Connection 1, Request (callback (Some ''good'') None), Tick] empty_world
   = (Some True,
      Some \<lparr>server = Some 3000, authCompletedSuccessfully = True, activeConnections = {1}\<rparr>,
      \<lparr>token_file = Json example_tokens, writeFile_calls = 1, open_calls = 1\<rparr>)"
  by (simp add: initializeAuthentication_def initialize_def start_def start_try_def
      getToken_def library_result_def hasValidTokens_def
      loadCredentials_def empty_world_def example_env_def new_AuthServer_def
      findAvailablePort_def startPort_default_def endPort_default_def
      findAvailablePort_from.simps [of _ 3000] open_browser_def step_def handle_request_def
      callback_def truthy_str_def saveTokens_def resolve_def outcome_of_def expired_def
      example_tokens_def)

section \<open>The meeting record\<close>

lemma formatMeetingData_null_iff:
  "formatMeetingData ev = Inr None \<longleftrightarrow>
     ev = None \<or> (\<exists>event. ev = Some event \<and> conferenceData event = None)"
  by (auto simp: formatMeetingData_def split: option.splits)

lemma trim_unicode_example:
  "trim ([CHR 0xC2, CHR 0xA0] @ ''+1 555 0100 '' @ [CHR 0xE3, CHR 0x80, CHR 0x80]) = ''+1 555 0100''"
  by (simp add: trim_def white_space_def strip_leading.simps)

lemma trim_blank: "trim '' '' = []"
  by (simp add: trim_def white_space_def strip_leading.simps [of _ "'' ''"]
      strip_leading.simps [of _ "[]"])

lemma formatMeetingData_defaults:
  assumes "conferenceData event = Some cd" "event_start event = Some st" "event_end event = Some en"
  shows "\<exists>m. formatMeetingData (Some event) = Inr (Some m)
     \<and> (summary event = None \<longrightarrow> meeting_summary m = untitled)
     \<and> (location event = None \<longrightarrow> meeting_location m = [])
     \<and> (conferenceId cd = None \<longrightarrow> conference_id m = [])
     \<and> ((\<forall>eps. entryPoints cd = Some eps \<longrightarrow> (\<forall>ep \<in> set eps. entryPointType ep \<noteq> Some ''phone''))
          \<longrightarrow> phone_info m = [])
     \<and> ((\<forall>eps. entryPoints cd = Some eps \<longrightarrow> (\<forall>ep \<in> set eps. entryPointType ep \<noteq> Some ''video''))
          \<longrightarrow> meet_link m = Some [])
     \<and> length (meeting_attendees m) = length (case attendees event of None \<Rightarrow> [] | Some as \<Rightarrow> as)
     \<and> (\<forall>i < length (meeting_attendees m).
           (responseStatus ((case attendees event of None \<Rightarrow> [] | Some as \<Rightarrow> as) ! i) = None
              \<longrightarrow> attendee_status (meeting_attendees m ! i) = ''needsAction'')
         \<and> (optional ((case attendees event of None \<Rightarrow> [] | Some as \<Rightarrow> as) ! i) = None
              \<longrightarrow> \<not> attendee_optional (meeting_attendees m ! i)))"
proof -
  have ph: "(\<forall>eps. entryPoints cd = Some eps \<longrightarrow> (\<forall>ep \<in> set eps. entryPointType ep \<noteq> Some ''phone''))
          \<longrightarrow> phoneInfo_of cd = []"
    by (auto simp: phoneInfo_of_def find_None_iff split: option.splits dest: find_Some_iff [THEN iffD1])
  have vi: "(\<forall>eps. entryPoints cd = Some eps \<longrightarrow> (\<forall>ep \<in> set eps. entryPointType ep \<noteq> Some ''video''))
          \<longrightarrow> meetLink_of cd = Some []"
    by (auto simp: meetLink_of_def find_None_iff split: option.splits dest: find_Some_iff [THEN iffD1])
  show ?thesis
    using assms ph vi
    by (simp add: formatMeetingData_def or_default_def formatAttendee_def)
qed

lemma getMeeting_format_branch_unreachable: "getMeeting api meetingId \<noteq> Inl CannotFormat"
  by (auto simp: getMeeting_def formatMeetingData_def split: sum.splits option.splits)

text \<open>
  C10 on the code: for an event with conference data, start and end whose video entry
  point has no \<open>uri\<close>, the record is returned with \<open>meet_link\<close> undefined, not the empty
  string (phone info, conference id and location are strings).
\<close>

theorem formatMeetingData_video_entry_without_uri:
  "map_sum id (map_option (\<lambda>m. (meet_link m, phone_info m, conference_id m, meeting_location m)))
     (formatMeetingData (Some example_video_without_uri))
   = Inr (Some (None, [], ''abc-defg-hij'', []))"
  by (simp add: formatMeetingData_def example_video_without_uri_def example_meeting_event_def
      meetLink_of_def phoneInfo_of_def or_default_def)

end
